theory Spec2Isabelle
  imports Complex_Main "HOL-Library.Word"
begin

section \<open>The GVINS estimator node: synchronisation and dispatch\<close>

text \<open>
  A shallow embedding of \<^verbatim>\<open>src/estimator/src/estimator_node.cpp\<close>. Timestamps and
  sensor values are C++ \<^verbatim>\<open>double\<close>s; they are modelled as \<^typ>\<open>real\<close>, and NaN and
  infinities are outside the model. Where the code compares a timestamp with a computed
  threshold that an input can meet exactly (the GNSS alignment of \<^verbatim>\<open>getMeasurements\<close>),
  the sums and differences are rounded as binary64 arithmetic rounds them; elsewhere
  they are taken exactly. A \<^verbatim>\<open>std::queue\<close> is a list whose head is the front of
  the queue; \<^verbatim>\<open>push\<close> appends at the end. The file-scope globals of the node are the
  fields of one record that every callback takes and returns. What the node does to
  the outside (estimator calls, warnings, notifications, publications) is appended to
  the field \<open>effects\<close>. Fields of the estimator that the node only reads (\<^verbatim>\<open>td\<close>,
  \<^verbatim>\<open>g\<close>, \<^verbatim>\<open>solver_flag\<close>) are parameters of the functions that read them.
\<close>

subsection \<open>Messages\<close>

type_synonym vec3 = "real \<times> real \<times> real"

record quat =
  qw :: real
  qx :: real
  qy :: real
  qz :: real

text \<open>\<^verbatim>\<open>sensor_msgs::Imu\<close>: header stamp in seconds, acceleration, angular velocity.\<close>

record Imu =
  stamp :: real
  linear_acceleration :: vec3
  angular_velocity :: vec3

text \<open>\<^verbatim>\<open>sensor_msgs::PointCloud\<close>: header stamp in seconds, points and channels.\<close>

record PointCloud =
  fstamp :: real
  points :: "vec3 list"
  channels :: "real list list"

text \<open>
  One satellite observation; \<open>otime\<close> is \<^verbatim>\<open>time2sec(obs->time)\<close>. An epoch is the
  vector that \<^verbatim>\<open>msg2meas\<close> returns. The node reads element 0 of every epoch it
  handles, so an epoch is modelled as a non-empty vector: its element 0 and the rest.
\<close>

record Obs =
  otime :: real
  sat :: nat

type_synonym epoch = "Obs \<times> Obs list"

definition epoch_ts :: "epoch \<Rightarrow> real" where
  "epoch_ts e = otime (fst e)"

definition epoch_vec :: "epoch \<Rightarrow> Obs list" where
  "epoch_vec e = fst e # snd e"

datatype SolverFlag = INITIAL | NON_LINEAR

text \<open>
  Modelled from the spec: the ephemeris record of the library \<^verbatim>\<open>gnss_comm\<close>, whose
  declaration is not part of the sources at hand. By section 3 of the specification it
  is a tagged variant (GPS, Galileo or BeiDou broadcast; GLONASS broadcast) that the node
  does not look into.
\<close>

datatype Ephem = BroadcastEphem nat | GloEphem nat

subsection \<open>Double-precision arithmetic\<close>

text \<open>
  IEEE 754 binary64 with the default rounding: to the nearest representable value, ties
  to the value with an even significand. \<open>rte\<close> rounds a real to the nearest integer,
  ties to even. \<open>binexp n a 0\<close> is the binary exponent of a positive \<open>a\<close>, the \<open>e\<close> with
  \<open>2 ^ e \<le> a < 2 ^ (e + 1)\<close>, found in at most \<open>n\<close> doublings or halvings. \<open>d64 x\<close> is
  the double nearest to \<open>x\<close>: the significand has 53 bits, so the spacing of the doubles
  around \<open>x\<close> is \<open>2 ^ (e - 52)\<close>, and below \<open>2 ^ (- 1022)\<close> the spacing stays
  \<open>2 ^ (- 1074)\<close>. Results beyond the largest finite double, which the machine turns
  into an infinity, are outside the model.
\<close>

definition rte :: "real \<Rightarrow> int" where
  "rte x =
     (let f = \<lfloor>x\<rfloor>; r = x - of_int f
      in if r < 1 / 2 then f
         else if 1 / 2 < r then f + 1
         else if even f then f else f + 1)"

fun binexp :: "nat \<Rightarrow> real \<Rightarrow> int \<Rightarrow> int" where
  "binexp 0 a e = e"
| "binexp (Suc n) a e =
     (if a < 1 then binexp n (2 * a) (e - 1)
      else if 2 \<le> a then binexp n (a / 2) (e + 1)
      else e)"

definition d64 :: "real \<Rightarrow> real" where
  "d64 x =
     (if x = 0 then 0
      else
        (let e = max (binexp 2200 \<bar>x\<bar> 0) (- 1022);
             q = 2 powi (e - 52)
         in of_int (rte (x / q)) * q))"

text \<open>The sum and the difference of two \<^verbatim>\<open>double\<close>s, as the machine computes them.\<close>

definition dadd :: "real \<Rightarrow> real \<Rightarrow> real" where
  "dadd x y = d64 (x + y)"

definition dsub :: "real \<Rightarrow> real \<Rightarrow> real" where
  "dsub x y = d64 (x - y)"

subsection \<open>Effects and errors\<close>

datatype effect =
    Warn string
  | Cerr string
  | CoutCalibrated real
  | Notify
  | ProcessIMU real vec3 vec3
  | InputGNSSTimeDiff real
  | InputEphem Ephem
  | ClearState
  | SetParameter
  | PubLatestOdometry vec3 quat vec3 real

text \<open>
  \<open>EmptyFront\<close>: \<^verbatim>\<open>front()\<close> of an empty \<^verbatim>\<open>std::queue\<close> (undefined behaviour in
  C++). \<open>AssertFailed\<close>: a failed \<^verbatim>\<open>ROS_ASSERT\<close>. \<open>NullDeref\<close>: a null
  \<^verbatim>\<open>img_msg\<close> dereferenced.
\<close>

datatype error = EmptyFront | AssertFailed | NullDeref

subsection \<open>The globals of the node\<close>

record node_state =
  current_time :: real
  imu_buf :: "Imu list"
  feature_buf :: "PointCloud list"
  gnss_meas_buf :: "epoch list"
  relo_buf :: "PointCloud list"
  sum_of_wait :: int
  latest_time :: real
  tmp_P :: vec3
  tmp_Q :: quat
  tmp_V :: vec3
  tmp_Ba :: vec3
  tmp_Bg :: vec3
  acc_0 :: vec3
  gyr_0 :: vec3
  init_imu :: bool
  last_imu_t :: real
  next_pulse_time :: real
  next_pulse_time_valid :: bool
  time_diff_gnss_local :: real
  time_diff_valid :: bool
  latest_gnss_time :: real
  tmp_last_feature_time :: real
  feature_msg_counter :: "64 word"
  skip_parameter :: int
  estimator_ephem :: "Ephem list"
  effects :: "effect list"

text \<open>
  The field \<open>estimator_ephem\<close> is modelled from the spec: the ephemeris that the
  estimator behind \<^verbatim>\<open>estimator_ptr\<close> holds. The class \<^verbatim>\<open>Estimator\<close> is not part of the
  sources at hand.
\<close>

text \<open>Line 21; the literal \<^verbatim>\<open>0.05\<close> is the \<^verbatim>\<open>double\<close> nearest to 0.05.\<close>

definition MAX_GNSS_CAMERA_DELAY :: real where
  "MAX_GNSS_CAMERA_DELAY = d64 0.05"

text \<open>
  The state when \<^verbatim>\<open>main\<close> starts the worker: the initialisers of the globals, then the
  assignments of \<^verbatim>\<open>main\<close>. Globals without an initialiser are zero-initialised. The
  parameters are the configuration values \<^verbatim>\<open>GNSS_ENABLE\<close>,
  \<^verbatim>\<open>GNSS_LOCAL_ONLINE_SYNC\<close> and \<^verbatim>\<open>GNSS_LOCAL_TIME_DIFF\<close>.
\<close>

definition init_state :: "bool \<Rightarrow> bool \<Rightarrow> real \<Rightarrow> node_state" where
  "init_state GNSS_ENABLE GNSS_LOCAL_ONLINE_SYNC GNSS_LOCAL_TIME_DIFF =
     \<lparr> current_time = - 1,
       imu_buf = [],
       feature_buf = [],
       gnss_meas_buf = [],
       relo_buf = [],
       sum_of_wait = 0,
       latest_time = 0,
       tmp_P = (0, 0, 0),
       tmp_Q = \<lparr> qw = 0, qx = 0, qy = 0, qz = 0 \<rparr>,
       tmp_V = (0, 0, 0),
       tmp_Ba = (0, 0, 0),
       tmp_Bg = (0, 0, 0),
       acc_0 = (0, 0, 0),
       gyr_0 = (0, 0, 0),
       init_imu = True,
       last_imu_t = - 1,
       next_pulse_time = 0,
       next_pulse_time_valid = False,
       time_diff_gnss_local =
         (if GNSS_ENABLE \<and> \<not> GNSS_LOCAL_ONLINE_SYNC then GNSS_LOCAL_TIME_DIFF else 0),
       time_diff_valid = (GNSS_ENABLE \<and> \<not> GNSS_LOCAL_ONLINE_SYNC),
       latest_gnss_time = - 1,
       tmp_last_feature_time = - 1,
       feature_msg_counter = 0,
       skip_parameter = (if GNSS_ENABLE then - 1 else 0),
       estimator_ephem = [],
       effects = (if GNSS_ENABLE \<and> \<not> GNSS_LOCAL_ONLINE_SYNC
              then [SetParameter, InputGNSSTimeDiff GNSS_LOCAL_TIME_DIFF]
              else [SetParameter]) \<rparr>"

subsection \<open>getMeasurements\<close>

text \<open>
  The three reference parameters of \<^verbatim>\<open>getMeasurements\<close>. \<open>img_msg\<close> is a shared
  pointer, \<open>None\<close> when null; the other two are vectors.
\<close>

record outs =
  imu_msg :: "Imu list"
  img_msg :: "PointCloud option"
  gnss_msg :: "Obs list"

text \<open>The values \<^verbatim>\<open>process\<close> declares afresh in every iteration of its loop.\<close>

definition fresh_outs :: outs where
  "fresh_outs = \<lparr> imu_msg = [], img_msg = None, gnss_msg = [] \<rparr>"

text \<open>
  Lines 175-180: drop the features older than the oldest IMU sample. The arguments
  are \<^verbatim>\<open>front_imu_ts\<close>, \<^verbatim>\<open>front_feature_ts\<close>, the feature queue and the log. After
  the \<^verbatim>\<open>pop\<close> the source reads \<^verbatim>\<open>feature_buf.front()\<close> without a test.
\<close>

fun throw_img :: "real \<Rightarrow> real \<Rightarrow> PointCloud list \<Rightarrow> effect list \<Rightarrow>
    error + (real \<times> PointCloud list \<times> effect list)" where
  "throw_img front_imu_ts front_feature_ts [] lg = Inr (front_feature_ts, [], lg)"
| "throw_img front_imu_ts front_feature_ts (f # fs) lg =
     (if front_imu_ts > front_feature_ts
      then (case fs of
              [] \<Rightarrow> Inl EmptyFront
            | f' # fs' \<Rightarrow>
                throw_img front_imu_ts (fstamp f') fs
                  (lg @ [Warn ''throw img, only should happen at the beginning'']))
      else Inr (front_feature_ts, f # fs, lg))"

text \<open>
  Lines 190-196: drop the GNSS epochs that are too old. The arguments are the
  threshold \<^verbatim>\<open>front_feature_ts-MAX_GNSS_CAMERA_DELAY\<close>, \<^verbatim>\<open>front_gnss_ts\<close>, the GNSS
  queue and the log. \<open>Inl\<close> is the \<^verbatim>\<open>return false\<close> inside the loop, with the log at
  that point (the queue is empty then).
\<close>

fun throw_gnss :: "real \<Rightarrow> real \<Rightarrow> epoch list \<Rightarrow> effect list \<Rightarrow>
    effect list + (real \<times> epoch list \<times> effect list)" where
  "throw_gnss thr front_gnss_ts [] lg = Inr (front_gnss_ts, [], lg)"
| "throw_gnss thr front_gnss_ts (e # es) lg =
     (if front_gnss_ts < thr
      then (case es of
              [] \<Rightarrow> Inl (lg @ [Warn ''throw gnss, only should happen at the beginning''])
            | e' # es' \<Rightarrow>
                throw_gnss thr (epoch_ts e') es
                  (lg @ [Warn ''throw gnss, only should happen at the beginning'']))
      else Inr (front_gnss_ts, e # es, lg))"

text \<open>
  Lines 217-221: move the IMU samples older than \<^verbatim>\<open>img_msg.stamp + td\<close> into
  \<^verbatim>\<open>imu_msg\<close>. The loop condition reads \<^verbatim>\<open>imu_buf.front()\<close> without a test.
\<close>

fun drain_imu :: "real \<Rightarrow> Imu list \<Rightarrow> Imu list \<Rightarrow> error + (Imu list \<times> Imu list)" where
  "drain_imu img_t [] out = Inl EmptyFront"
| "drain_imu img_t (m # ms) out =
     (if stamp m < img_t then drain_imu img_t ms (out @ [m]) else Inr (m # ms, out))"

text \<open>Lines 213-225, after the GNSS part.\<close>

definition take_img_and_imu :: "real \<Rightarrow> node_state \<Rightarrow> outs \<Rightarrow> error + (bool \<times> node_state \<times> outs)" where
  "take_img_and_imu td s out =
     (case feature_buf s of
        [] \<Rightarrow> Inl EmptyFront
      | img # fs \<Rightarrow>
          (case drain_imu (fstamp img + td) (imu_buf s) (imu_msg out) of
             Inl e \<Rightarrow> Inl e
           | Inr (buf, taken) \<Rightarrow>
               (case buf of
                  [] \<Rightarrow> Inl EmptyFront
                | m # ms \<Rightarrow>
                    (let taken' = taken @ [m];
                         lg = (if taken' = [] then effects s @ [Warn ''no imu between two image'']
                               else effects s)
                     in Inr (True,
                             s\<lparr>feature_buf := fs, imu_buf := buf, effects := lg\<rparr>,
                             out\<lparr>img_msg := Some img, imu_msg := taken'\<rparr>)))))"

text \<open>
  Lines 184-211, the body of \<^verbatim>\<open>if (GNSS_ENABLE)\<close>; \<open>None\<close> is \<^verbatim>\<open>return false\<close>. The
  file is compiled with \<^verbatim>\<open>using namespace std\<close>, so \<^verbatim>\<open>abs\<close> on a \<^verbatim>\<open>double\<close> is the
  absolute value of a \<^verbatim>\<open>double\<close>, here and in \<^verbatim>\<open>feature_callback\<close>. The sum of line
  186 and the differences of lines 190 and 206 are \<^verbatim>\<open>double\<close> operations: a GNSS epoch
  can sit exactly on either threshold, and there the rounding decides the branch.
\<close>

definition align_gnss :: "real \<Rightarrow> node_state \<Rightarrow> outs \<Rightarrow> error + (node_state \<times> outs option)" where
  "align_gnss front_feature_ts0 s out =
     (let front_feature_ts = dadd front_feature_ts0 (time_diff_gnss_local s)
      in case gnss_meas_buf s of
           [] \<Rightarrow> Inl EmptyFront
         | e0 # es0 \<Rightarrow>
             (case throw_gnss (dsub front_feature_ts MAX_GNSS_CAMERA_DELAY) (epoch_ts e0)
                     (e0 # es0) (effects s) of
                Inl lg \<Rightarrow> Inr (s\<lparr>gnss_meas_buf := [], effects := lg\<rparr>, None)
              | Inr (front_gnss_ts, gb, lg) \<Rightarrow>
                  (case gb of
                     [] \<Rightarrow> Inr (s\<lparr>gnss_meas_buf := [], effects := lg @ [Warn ''wait for gnss...'']\<rparr>,
                                None)
                   | e # es \<Rightarrow>
                       if \<bar>dsub front_gnss_ts front_feature_ts\<bar> < MAX_GNSS_CAMERA_DELAY
                       then Inr (s\<lparr>gnss_meas_buf := es, effects := lg\<rparr>,
                                 Some (out\<lparr>gnss_msg := epoch_vec e\<rparr>))
                       else Inr (s\<lparr>gnss_meas_buf := e # es, effects := lg\<rparr>, Some out))))"

text \<open>
  \<^verbatim>\<open>getMeasurements\<close>, lines 156-226. The parameters are \<^verbatim>\<open>GNSS_ENABLE\<close> and the
  estimator's \<^verbatim>\<open>td\<close>; the result is the returned bool, the globals and the reference
  parameters.
\<close>

definition getMeasurements :: "bool \<Rightarrow> real \<Rightarrow> node_state \<Rightarrow> outs \<Rightarrow>
    error + (bool \<times> node_state \<times> outs)" where
  "getMeasurements GNSS_ENABLE td s out =
     (if imu_buf s = [] \<or> feature_buf s = [] \<or> (GNSS_ENABLE \<and> gnss_meas_buf s = [])
      then Inr (False, s, out)
      else
        (let front_feature_ts = fstamp (hd (feature_buf s))
         in if \<not> (stamp (last (imu_buf s)) > front_feature_ts)
            then Inr (False, s\<lparr>sum_of_wait := sum_of_wait s + 1\<rparr>, out)
            else
              (let front_imu_ts = stamp (hd (imu_buf s))
               in case throw_img front_imu_ts front_feature_ts (feature_buf s) (effects s) of
                    Inl e \<Rightarrow> Inl e
                  | Inr (front_feature_ts', fb, lg) \<Rightarrow>
                      (let s1 = s\<lparr>feature_buf := fb, effects := lg\<rparr>
                       in if GNSS_ENABLE
                          then (case align_gnss front_feature_ts' s1 out of
                                  Inl e \<Rightarrow> Inl e
                                | Inr (s2, None) \<Rightarrow> Inr (False, s2, out)
                                | Inr (s2, Some out2) \<Rightarrow> take_img_and_imu td s2 out2)
                          else take_img_and_imu td s1 out))))"

subsection \<open>Vectors and quaternions (Eigen)\<close>

fun vadd :: "vec3 \<Rightarrow> vec3 \<Rightarrow> vec3" where
  "vadd (a1, a2, a3) (b1, b2, b3) = (a1 + b1, a2 + b2, a3 + b3)"

fun vsub :: "vec3 \<Rightarrow> vec3 \<Rightarrow> vec3" where
  "vsub (a1, a2, a3) (b1, b2, b3) = (a1 - b1, a2 - b2, a3 - b3)"

fun smul :: "real \<Rightarrow> vec3 \<Rightarrow> vec3" where
  "smul k (a1, a2, a3) = (k * a1, k * a2, k * a3)"

fun cross :: "vec3 \<Rightarrow> vec3 \<Rightarrow> vec3" where
  "cross (a1, a2, a3) (b1, b2, b3) = (a2 * b3 - a3 * b2, a3 * b1 - a1 * b3, a1 * b2 - a2 * b1)"

text \<open>\<^verbatim>\<open>Quaterniond * Quaterniond\<close>: the Hamilton product.\<close>

definition quat_mult :: "quat \<Rightarrow> quat \<Rightarrow> quat" where
  "quat_mult a b =
     \<lparr> qw = qw a * qw b - qx a * qx b - qy a * qy b - qz a * qz b,
       qx = qw a * qx b + qx a * qw b + qy a * qz b - qz a * qy b,
       qy = qw a * qy b + qy a * qw b + qz a * qx b - qx a * qz b,
       qz = qw a * qz b + qz a * qw b + qx a * qy b - qy a * qx b \<rparr>"

text \<open>\<^verbatim>\<open>Quaterniond * Vector3d\<close>: Eigen's \<^verbatim>\<open>_transformVector\<close>.\<close>

definition quat_rotate :: "quat \<Rightarrow> vec3 \<Rightarrow> vec3" where
  "quat_rotate q v =
     (let u = (qx q, qy q, qz q);
          uv = smul 2 (cross u v)
      in vadd (vadd v (smul (qw q) uv)) (cross u uv))"

subsection \<open>predict and the IMU callback\<close>

text \<open>
  \<^verbatim>\<open>predict\<close>, lines 69-127. \<open>deltaQ\<close> is \<^verbatim>\<open>Utility::deltaQ\<close>, declared in a header
  that is not part of the sources at hand; \<open>g\<close> is \<^verbatim>\<open>estimator_ptr->g\<close>.
\<close>

definition predict :: "(vec3 \<Rightarrow> quat) \<Rightarrow> vec3 \<Rightarrow> node_state \<Rightarrow> Imu \<Rightarrow> node_state" where
  "predict deltaQ g s m =
     (let t = stamp m
      in if init_imu s
         then s\<lparr>latest_time := t, init_imu := False\<rparr>
         else
           (let dt = t - latest_time s;
                la = linear_acceleration m;
                av = angular_velocity m;
                un_acc_0 = vsub (quat_rotate (tmp_Q s) (vsub (acc_0 s) (tmp_Ba s))) g;
                un_gyr = vsub (smul 0.5 (vadd (gyr_0 s) av)) (tmp_Bg s);
                Q = quat_mult (tmp_Q s) (deltaQ (smul dt un_gyr));
                un_acc_1 = vsub (quat_rotate Q (vsub la (tmp_Ba s))) g;
                un_acc = smul 0.5 (vadd un_acc_0 un_acc_1)
            in s\<lparr>latest_time := t,
                 tmp_Q := Q,
                 tmp_P := vadd (vadd (tmp_P s) (smul dt (tmp_V s))) (smul (0.5 * dt * dt) un_acc),
                 tmp_V := vadd (tmp_V s) (smul dt un_acc),
                 acc_0 := la,
                 gyr_0 := av\<rparr>))"

text \<open>
  \<^verbatim>\<open>imu_callback\<close>, lines 233-257. \<open>flag\<close> is \<^verbatim>\<open>estimator_ptr->solver_flag\<close>.
\<close>

definition imu_callback :: "(vec3 \<Rightarrow> quat) \<Rightarrow> vec3 \<Rightarrow> SolverFlag \<Rightarrow> node_state \<Rightarrow> Imu \<Rightarrow> node_state" where
  "imu_callback deltaQ g flag s m =
     (if stamp m \<le> last_imu_t s
      then s\<lparr>effects := effects s @ [Warn ''imu message in disorder!'']\<rparr>
      else
        (let s1 = s\<lparr>last_imu_t := stamp m\<rparr>;
             s2 = s1\<lparr>imu_buf := imu_buf s1 @ [m], effects := effects s1 @ [Notify]\<rparr>;
             s3 = s2\<lparr>last_imu_t := stamp m\<rparr>;
             s4 = predict deltaQ g s3 m
         in if flag = NON_LINEAR
            then s4\<lparr>effects := effects s4 @
                       [PubLatestOdometry (tmp_P s4) (tmp_Q s4) (tmp_V s4) (stamp m)]\<rparr>
            else s4))"

text \<open>
  A run of the IMU callback over the messages that arrive, each with the gravity and
  the solver flag that the estimator shows at that moment.
\<close>

fun imu_callbacks :: "(vec3 \<Rightarrow> quat) \<Rightarrow> node_state \<Rightarrow> (vec3 \<times> SolverFlag \<times> Imu) list \<Rightarrow> node_state" where
  "imu_callbacks deltaQ s [] = s"
| "imu_callbacks deltaQ s ((g, flag, m) # ms) =
     imu_callbacks deltaQ (imu_callback deltaQ g flag s m) ms"

subsection \<open>The GNSS measurement callback and the feature callback\<close>

text \<open>\<^verbatim>\<open>gnss_meas_callback\<close>, lines 296-309; the argument is the result of \<^verbatim>\<open>msg2meas\<close>.\<close>

definition gnss_meas_callback :: "node_state \<Rightarrow> epoch \<Rightarrow> node_state" where
  "gnss_meas_callback s gnss_meas =
     (let s1 = s\<lparr>latest_gnss_time := epoch_ts gnss_meas\<rparr>
      in if \<not> time_diff_valid s1 then s1
         else s1\<lparr>gnss_meas_buf := gnss_meas_buf s1 @ [gnss_meas],
                 effects := effects s1 @ [Notify]\<rparr>)"

text \<open>
  \<^verbatim>\<open>feature_callback\<close>, lines 316-344. The counter is a \<^verbatim>\<open>uint64_t\<close>;
  \<^verbatim>\<open>skip_parameter\<close> is an \<^verbatim>\<open>int\<close> that only ever holds -1, 0 or 1.
\<close>

definition feature_callback :: "node_state \<Rightarrow> PointCloud \<Rightarrow> node_state" where
  "feature_callback s feature_msg =
     (let s1 = s\<lparr>feature_msg_counter := feature_msg_counter s + 1\<rparr>;
          s2 =
            (if skip_parameter s1 < 0 \<and> time_diff_valid s1
             then
               (let this_feature_ts = fstamp feature_msg + time_diff_gnss_local s1;
                    s1a =
                      (if latest_gnss_time s1 > 0 \<and> tmp_last_feature_time s1 > 0
                       then
                         (if \<bar>this_feature_ts - latest_gnss_time s1\<bar> >
                             \<bar>tmp_last_feature_time s1 - latest_gnss_time s1\<bar>
                          then s1\<lparr>skip_parameter := uint (feature_msg_counter s1 mod 2)\<rparr>
                          else s1\<lparr>skip_parameter := uint (1 - feature_msg_counter s1 mod 2)\<rparr>)
                       else s1)
                in s1a\<lparr>tmp_last_feature_time := this_feature_ts\<rparr>)
             else s1)
      in if skip_parameter s2 \<ge> 0 \<and> uint (feature_msg_counter s2 mod 2) \<noteq> skip_parameter s2
         then s2\<lparr>feature_buf := feature_buf s2 @ [feature_msg],
                 effects := effects s2 @ [Notify]\<rparr>
         else s2)"

subsection \<open>Clock calibration\<close>

text \<open>
  The time systems that \<^verbatim>\<open>gnss_tp_info_callback\<close> tells apart; every other value of
  the field takes the last, empty branch, as \<^verbatim>\<open>SYS_GPS\<close> does.
\<close>

datatype time_system = SYS_NONE | SYS_GPS | SYS_GLO | SYS_GAL | SYS_BDS | SYS_OTHER

record GnssTimePulseInfoMsg =
  week :: nat
  tow :: real
  time_sys :: time_system
  utc_based :: bool

text \<open>
  The conversions of the library \<^verbatim>\<open>gnss_comm\<close>, which is not part of the sources at
  hand. A \<^verbatim>\<open>gtime_t\<close> is represented by its value in seconds, so \<^verbatim>\<open>time2sec\<close> is the
  identity.
\<close>

record gnss_comm =
  gpst2time :: "nat \<Rightarrow> real \<Rightarrow> real"
  utc2gpst :: "real \<Rightarrow> real"
  gst2time :: "nat \<Rightarrow> real \<Rightarrow> real"
  bdt2time :: "nat \<Rightarrow> real \<Rightarrow> real"

text \<open>\<^verbatim>\<open>gnss_tp_info_callback\<close>, lines 378-401.\<close>

definition gnss_tp_info_callback :: "gnss_comm \<Rightarrow> node_state \<Rightarrow> GnssTimePulseInfoMsg \<Rightarrow> node_state" where
  "gnss_tp_info_callback lib s tp_msg =
     (let tp_time0 = gpst2time lib (week tp_msg) (tow tp_msg);
          store = (\<lambda>gnss_ts. s\<lparr>next_pulse_time := gnss_ts, next_pulse_time_valid := True\<rparr>)
      in if utc_based tp_msg \<or> time_sys tp_msg = SYS_GLO then store (utc2gpst lib tp_time0)
         else if time_sys tp_msg = SYS_GAL then store (gst2time lib (week tp_msg) (tow tp_msg))
         else if time_sys tp_msg = SYS_BDS then store (bdt2time lib (week tp_msg) (tow tp_msg))
         else if time_sys tp_msg = SYS_NONE
         then s\<lparr>effects := effects s @ [Cerr ''Unknown time system in GNSSTimePulseInfoMsg.'']\<rparr>
         else store tp_time0)"

text \<open>
  \<^verbatim>\<open>local_trigger_info_callback\<close>, lines 354-371; the argument is the stamp of the
  trigger message in seconds.
\<close>

definition local_trigger_info_callback :: "node_state \<Rightarrow> real \<Rightarrow> node_state" where
  "local_trigger_info_callback s trigger_stamp =
     (if next_pulse_time_valid s
      then
        (let d = next_pulse_time s - trigger_stamp;
             s1 = s\<lparr>time_diff_gnss_local := d\<rparr>;
             s2 = s1\<lparr>effects := effects s1 @ [InputGNSSTimeDiff (time_diff_gnss_local s1)]\<rparr>;
             s3 = (if \<not> time_diff_valid s2
                   then s2\<lparr>effects := effects s2 @ [CoutCalibrated (time_diff_gnss_local s2)]\<rparr>
                   else s2)
         in s3\<lparr>time_diff_valid := True\<rparr>)
      else s)"

subsection \<open>Ephemeris\<close>

text \<open>
  Modelled from the spec: \<^verbatim>\<open>Estimator::inputEphem\<close>, which is not part of the sources at
  hand. By sections 4.2 and 6 of the specification an ephemeris record is pushed
  directly to the estimator, which keeps it.
\<close>

definition inputEphem :: "node_state \<Rightarrow> Ephem \<Rightarrow> node_state" where
  "inputEphem s ephem =
     s\<lparr>estimator_ephem := estimator_ephem s @ [ephem],
       effects := effects s @ [InputEphem ephem]\<rparr>"

text \<open>
  \<^verbatim>\<open>gnss_ephem_callback\<close> and \<^verbatim>\<open>gnss_glo_ephem_callback\<close>, lines 267-285; the argument is
  the result of \<^verbatim>\<open>msg2ephem\<close> or \<^verbatim>\<open>msg2glo_ephem\<close>.
\<close>

definition gnss_ephem_callback :: "node_state \<Rightarrow> Ephem \<Rightarrow> node_state" where
  "gnss_ephem_callback s ephem = inputEphem s ephem"

definition gnss_glo_ephem_callback :: "node_state \<Rightarrow> Ephem \<Rightarrow> node_state" where
  "gnss_glo_ephem_callback s glo_ephem = inputEphem s glo_ephem"

subsection \<open>Restart\<close>

text \<open>
  Modelled from the spec: \<^verbatim>\<open>Estimator::clearState\<close>, which is not part of the sources at
  hand. By section 4.7 of the specification the ephemeris remains valid across a
  restart, so the call leaves \<open>estimator_ephem\<close> as it is; the call is logged.
\<close>

definition clearState :: "node_state \<Rightarrow> node_state" where
  "clearState s = s\<lparr>effects := effects s @ [ClearState]\<rparr>"

text \<open>
  Modelled from the spec: \<^verbatim>\<open>Estimator::setParameter\<close>, which is not part of the sources
  at hand. By section 4.7 of the specification the ephemeris remains valid across a
  restart, so the call leaves \<open>estimator_ephem\<close> as it is; the call is logged.
\<close>

definition setParameter :: "node_state \<Rightarrow> node_state" where
  "setParameter s = s\<lparr>effects := effects s @ [SetParameter]\<rparr>"

text \<open>The loops \<^verbatim>\<open>while(!buf.empty()) buf.pop();\<close> of lines 409-412.\<close>

fun pop_all :: "'a list \<Rightarrow> 'a list" where
  "pop_all [] = []"
| "pop_all (x # xs) = pop_all xs"

text \<open>\<^verbatim>\<open>restart_callback\<close>, lines 403-422; the argument is \<^verbatim>\<open>restart_msg->data\<close>.\<close>

definition restart_callback :: "node_state \<Rightarrow> bool \<Rightarrow> node_state" where
  "restart_callback s data =
     (if data = True
      then
        (let s1 = s\<lparr>effects := effects s @ [Warn ''restart the estimator!'']\<rparr>;
             s2 = s1\<lparr>feature_buf := pop_all (feature_buf s1)\<rparr>;
             s3 = s2\<lparr>imu_buf := pop_all (imu_buf s2)\<rparr>;
             s4 = setParameter (clearState s3)
         in s4\<lparr>current_time := - 1, last_imu_t := 0\<rparr>)
      else s)"

subsection \<open>The IMU part of the main loop\<close>

text \<open>
  One iteration of the loop of lines 447-487. The state of the loop is the globals
  and the locals \<^verbatim>\<open>(dx, dy, dz)\<close> and \<^verbatim>\<open>(rx, ry, rz)\<close>; \<open>img_t\<close> is
  \<^verbatim>\<open>img_msg->header.stamp.toSec() + estimator_ptr->td\<close>.
\<close>

definition process_imu_data :: "real \<Rightarrow> node_state \<times> vec3 \<times> vec3 \<Rightarrow> Imu \<Rightarrow>
    error + (node_state \<times> vec3 \<times> vec3)" where
  "process_imu_data img_t st imu_data =
     (case st of (s, d, r) \<Rightarrow>
        (let t = stamp imu_data
         in if t \<le> img_t
            then
              (let s1 = (if current_time s < 0 then s\<lparr>current_time := t\<rparr> else s);
                   dt = t - current_time s1
               in if \<not> dt \<ge> 0 then Inl AssertFailed
                  else
                    (let d' = linear_acceleration imu_data;
                         r' = angular_velocity imu_data
                     in Inr (s1\<lparr>current_time := t,
                                 effects := effects s1 @ [ProcessIMU dt d' r']\<rparr>, d', r')))
            else
              (let dt_1 = img_t - current_time s;
                   dt_2 = t - img_t
               in if \<not> dt_1 \<ge> 0 \<or> \<not> dt_2 \<ge> 0 \<or> \<not> dt_1 + dt_2 > 0 then Inl AssertFailed
                  else
                    (let w1 = dt_2 / (dt_1 + dt_2);
                         w2 = dt_1 / (dt_1 + dt_2);
                         d' = vadd (smul w1 d) (smul w2 (linear_acceleration imu_data));
                         r' = vadd (smul w1 r) (smul w2 (angular_velocity imu_data))
                     in Inr (s\<lparr>current_time := img_t,
                                effects := effects s @ [ProcessIMU dt_1 d' r']\<rparr>, d', r')))))"

fun process_imu_loop :: "real \<Rightarrow> node_state \<times> vec3 \<times> vec3 \<Rightarrow> Imu list \<Rightarrow>
    error + (node_state \<times> vec3 \<times> vec3)" where
  "process_imu_loop img_t st [] = Inr st"
| "process_imu_loop img_t st (imu_data # rest) =
     (case process_imu_data img_t st imu_data of
        Inl e \<Rightarrow> Inl e
      | Inr st' \<Rightarrow> process_imu_loop img_t st' rest)"

text \<open>
  Step 2 of \<^verbatim>\<open>process\<close>, lines 446-487, on the bundle that \<^verbatim>\<open>getMeasurements\<close> has
  filled in.
\<close>

definition process_imu :: "real \<Rightarrow> node_state \<Rightarrow> outs \<Rightarrow> error + node_state" where
  "process_imu td s out =
     (case imu_msg out of
        [] \<Rightarrow> Inr s
      | _ # _ \<Rightarrow>
          (case img_msg out of
             None \<Rightarrow> Inl NullDeref
           | Some img \<Rightarrow>
               (case process_imu_loop (fstamp img + td) (s, (0, 0, 0), (0, 0, 0)) (imu_msg out) of
                  Inl e \<Rightarrow> Inl e
                | Inr (s', d, r) \<Rightarrow> Inr s')))"

text \<open>The \<^verbatim>\<open>processIMU\<close> calls in a log of effects, in order.\<close>

fun processIMU_calls :: "effect list \<Rightarrow> (real \<times> vec3 \<times> vec3) list" where
  "processIMU_calls [] = []"
| "processIMU_calls (ProcessIMU dt a w # es) = (dt, a, w) # processIMU_calls es"
| "processIMU_calls (e # es) = processIMU_calls es"

subsection \<open>Messages of the scenarios\<close>

definition imu_at :: "real \<Rightarrow> vec3 \<Rightarrow> Imu" where
  "imu_at t a = \<lparr> stamp = t, linear_acceleration = a, angular_velocity = (0, 0, 0) \<rparr>"

definition feature_at :: "real \<Rightarrow> PointCloud" where
  "feature_at t = \<lparr> fstamp = t, points = [], channels = [] \<rparr>"

definition epoch_at :: "real \<Rightarrow> epoch" where
  "epoch_at t = (\<lparr> otime = t, sat = 1 \<rparr>, [])"

text \<open>
  A stand-in for \<^verbatim>\<open>Utility::deltaQ\<close> in the scenarios, none of which depends on it: no
  rotation.
\<close>

definition no_rotation :: "vec3 \<Rightarrow> quat" where
  "no_rotation theta = \<lparr> qw = 1, qx = 0, qy = 0, qz = 0 \<rparr>"

text \<open>
  The node with GNSS and online synchronisation enabled, after
  \<^verbatim>\<open>gnss_tp_info_callback\<close> has stored the pulse time \<open>t\<close> and before any trigger.
\<close>

definition pulse_pending :: "real \<Rightarrow> node_state" where
  "pulse_pending t = (init_state True True 0)\<lparr>next_pulse_time := t, next_pulse_time_valid := True\<rparr>"

section \<open>Evaluating double-precision arithmetic\<close>

lemma binexp_numeral:
  "binexp (numeral k) a e =
     (if a < 1 then binexp (pred_numeral k) (2 * a) (e - 1)
      else if 2 \<le> a then binexp (pred_numeral k) (a / 2) (e + 1)
      else e)"
  by (simp add: numeral_eq_Suc)

lemmas d64_eval = d64_def dadd_def dsub_def rte_def binexp_numeral Let_def

lemma d64_examples:
  "d64 10 = 10"
  "d64 0.1 = 3602879701896397 / 2 ^ 55"
  "d64 0.05 = 3602879701896397 / 2 ^ 56"
  "d64 (- 2.5) = - 2.5"
  "d64 (2 ^ 53 + 1) = 2 ^ 53"
  "d64 (2 ^ 53 + 3) = 2 ^ 53 + 4"
  "dsub (dadd 10 0) (d64 0.05) = d64 9.95"
  by (simp_all add: d64_eval)

section \<open>Properties of getMeasurements\<close>

subsection \<open>The paths through getMeasurements\<close>


lemma take_img_and_imu_True:
  "take_img_and_imu td s out = Inr (b, s', out') \<Longrightarrow> b"
  unfolding take_img_and_imu_def Let_def
  by (simp split: list.splits sum.splits prod.splits)

lemma align_gnss_None:
  assumes "align_gnss ff s out = Inr (s', None)"
  shows "gnss_meas_buf s' = []"
proof (cases "gnss_meas_buf s")
  case Nil
  with assms show ?thesis by (simp add: align_gnss_def)
next
  case (Cons e0 es0)
  show ?thesis
  proof (cases "throw_gnss (dsub (dadd ff (time_diff_gnss_local s)) MAX_GNSS_CAMERA_DELAY) (epoch_ts e0)
                  (e0 # es0) (effects s)")
    case (Inl lg)
    with assms Cons have "s' = s\<lparr>gnss_meas_buf := [], effects := lg\<rparr>"
      by (simp add: align_gnss_def)
    then show ?thesis by simp
  next
    case (Inr t)
    obtain fg gb lg where t: "t = (fg, gb, lg)" by (cases t) auto
    show ?thesis
    proof (cases gb)
      case Nil
      with assms Cons Inr t
      have "s' = s\<lparr>gnss_meas_buf := [], effects := lg @ [Warn ''wait for gnss...'']\<rparr>"
        by (simp add: align_gnss_def)
      then show ?thesis by simp
    next
      case (Cons e es)
      with assms \<open>gnss_meas_buf s = e0 # es0\<close> Inr t show ?thesis
        by (simp add: align_gnss_def split: if_splits)
    qed
  qed
qed

lemma getMeasurements_empty:
  "imu_buf s = [] \<or> feature_buf s = [] \<or> (en \<and> gnss_meas_buf s = []) \<Longrightarrow>
   getMeasurements en td s out = Inr (False, s, out)"
  unfolding getMeasurements_def by (rule if_P)

lemma getMeasurements_wait:
  "\<not> (imu_buf s = [] \<or> feature_buf s = [] \<or> (en \<and> gnss_meas_buf s = [])) \<Longrightarrow>
   \<not> stamp (last (imu_buf s)) > fstamp (hd (feature_buf s)) \<Longrightarrow>
   getMeasurements en td s out = Inr (False, s\<lparr>sum_of_wait := sum_of_wait s + 1\<rparr>, out)"
  unfolding getMeasurements_def Let_def by (simp only: if_False if_True not_False_eq_True)

lemma getMeasurements_main:
  "\<not> (imu_buf s = [] \<or> feature_buf s = [] \<or> (en \<and> gnss_meas_buf s = [])) \<Longrightarrow>
   stamp (last (imu_buf s)) > fstamp (hd (feature_buf s)) \<Longrightarrow>
   getMeasurements en td s out =
     (case throw_img (stamp (hd (imu_buf s))) (fstamp (hd (feature_buf s)))
             (feature_buf s) (effects s) of
        Inl e \<Rightarrow> Inl e
      | Inr (front_feature_ts', fb, lg) \<Rightarrow>
          if en
          then (case align_gnss front_feature_ts' (s\<lparr>feature_buf := fb, effects := lg\<rparr>) out of
                  Inl e \<Rightarrow> Inl e
                | Inr (s2, None) \<Rightarrow> Inr (False, s2, out)
                | Inr (s2, Some out2) \<Rightarrow> take_img_and_imu td s2 out2)
          else take_img_and_imu td (s\<lparr>feature_buf := fb, effects := lg\<rparr>) out)"
  unfolding getMeasurements_def Let_def
  by (simp only: if_False if_True not_False_eq_True not_True_eq_False)

lemma getMeasurements_False:
  assumes "getMeasurements en td s out = Inr (False, s1, out1)"
  shows "out1 = out \<and>
         ((s1 = s \<and> (imu_buf s = [] \<or> feature_buf s = [] \<or> (en \<and> gnss_meas_buf s = []))) \<or>
          (s1 = s\<lparr>sum_of_wait := sum_of_wait s + 1\<rparr> \<and>
             \<not> (imu_buf s = [] \<or> feature_buf s = [] \<or> (en \<and> gnss_meas_buf s = [])) \<and>
             \<not> stamp (last (imu_buf s)) > fstamp (hd (feature_buf s))) \<or>
          (en \<and> gnss_meas_buf s1 = []))"
proof (cases "imu_buf s = [] \<or> feature_buf s = [] \<or> (en \<and> gnss_meas_buf s = [])")
  case True
  from assms getMeasurements_empty [OF True, of td out] have "s1 = s" "out1 = out" by simp_all
  with True show ?thesis by blast
next
  case ne: False
  show ?thesis
  proof (cases "stamp (last (imu_buf s)) > fstamp (hd (feature_buf s))")
    case False
    from assms getMeasurements_wait [OF ne False, of td out]
    have "s1 = s\<lparr>sum_of_wait := sum_of_wait s + 1\<rparr>" "out1 = out" by simp_all
    with ne False show ?thesis by blast
  next
    case True
    note main = getMeasurements_main [OF ne True, of td out]
    show ?thesis
    proof (cases "throw_img (stamp (hd (imu_buf s))) (fstamp (hd (feature_buf s)))
             (feature_buf s) (effects s)")
      case (Inl e)
      with main assms show ?thesis by simp
    next
      case (Inr t)
      obtain ff fb lg where t: "t = (ff, fb, lg)" by (cases t) auto
      show ?thesis
      proof (cases en)
        case False
        with main assms Inr t
        have "take_img_and_imu td (s\<lparr>feature_buf := fb, effects := lg\<rparr>) out = Inr (False, s1, out1)"
          by simp
        then show ?thesis using take_img_and_imu_True by blast
      next
        case en: True
        show ?thesis
        proof (cases "align_gnss ff (s\<lparr>feature_buf := fb, effects := lg\<rparr>) out")
          case (Inl e)
          with main assms \<open>_ = Inr t\<close> t en show ?thesis by simp
        next
          case a: (Inr p)
          obtain s2 o2 where p: "p = (s2, o2)" by (cases p) auto
          show ?thesis
          proof (cases o2)
            case None
            with main assms Inr t en a p have "s1 = s2" "out1 = out" by simp_all
            moreover from a p None have "gnss_meas_buf s2 = []"
              using align_gnss_None by blast
            ultimately show ?thesis using en by simp
          next
            case (Some out2)
            with main assms Inr t en a p
            have "take_img_and_imu td s2 out2 = Inr (False, s1, out1)" by simp
            then show ?thesis using take_img_and_imu_True by blast
          qed
        qed
      qed
    qed
  qed
qed


subsection \<open>Repeating a failed synchronisation\<close>

text \<open>
  Claim C9. Whenever \<^verbatim>\<open>getMeasurements\<close> returns false, calling it again at once on
  the state it left, with nothing pushed to any queue in between, returns false too
  and leaves the four queues \<^verbatim>\<open>imu_buf\<close>, \<^verbatim>\<open>feature_buf\<close>, \<^verbatim>\<open>gnss_meas_buf\<close> and
  \<^verbatim>\<open>relo_buf\<close> as they were.
\<close>

theorem getMeasurements_false_idempotent:
  assumes "getMeasurements en td s out = Inr (False, s1, out1)"
  shows "\<exists>s2. getMeasurements en td s1 out1 = Inr (False, s2, out1) \<and>
           imu_buf s2 = imu_buf s1 \<and> feature_buf s2 = feature_buf s1 \<and>
           gnss_meas_buf s2 = gnss_meas_buf s1 \<and> relo_buf s2 = relo_buf s1"
proof -
  from getMeasurements_False [OF assms]
  consider (a) "s1 = s" "imu_buf s = [] \<or> feature_buf s = [] \<or> (en \<and> gnss_meas_buf s = [])"
    | (b) "s1 = s\<lparr>sum_of_wait := sum_of_wait s + 1\<rparr>"
          "\<not> (imu_buf s = [] \<or> feature_buf s = [] \<or> (en \<and> gnss_meas_buf s = []))"
          "\<not> stamp (last (imu_buf s)) > fstamp (hd (feature_buf s))"
    | (c) "en" "gnss_meas_buf s1 = []"
    by blast
  moreover from getMeasurements_False [OF assms] have o: "out1 = out" by simp
  ultimately show ?thesis
  proof cases
    case a
    from getMeasurements_empty [OF a(2), of td out] a(1) o show ?thesis by simp
  next
    case b
    have ne: "\<not> (imu_buf s1 = [] \<or> feature_buf s1 = [] \<or> (en \<and> gnss_meas_buf s1 = []))"
      using b by simp
    have w: "\<not> stamp (last (imu_buf s1)) > fstamp (hd (feature_buf s1))"
      using b by simp
    from getMeasurements_wait [OF ne w, of td out1] show ?thesis by simp
  next
    case c
    then have "imu_buf s1 = [] \<or> feature_buf s1 = [] \<or> (en \<and> gnss_meas_buf s1 = [])" by simp
    from getMeasurements_empty [OF this, of td out1] show ?thesis by simp
  qed
qed


text \<open>
  An instance in which the first call changes a queue: the only GNSS epoch is stale,
  so the first call drops it and returns false; the second call changes nothing.
\<close>

theorem getMeasurements_false_idempotent_witness:
  "getMeasurements True 0
     ((init_state True False 0)
        \<lparr> imu_buf := [imu_at 9.9 (0, 0, 0), imu_at 10.1 (0, 0, 0)],
          feature_buf := [feature_at 10],
          gnss_meas_buf := [epoch_at 9] \<rparr>)
     fresh_outs =
   Inr (False,
     (init_state True False 0)
        \<lparr> imu_buf := [imu_at 9.9 (0, 0, 0), imu_at 10.1 (0, 0, 0)],
          feature_buf := [feature_at 10],
          gnss_meas_buf := [],
          effects := [SetParameter, InputGNSSTimeDiff 0,
                      Warn ''throw gnss, only should happen at the beginning''] \<rparr>,
     fresh_outs) \<and>
   (\<exists>s2. getMeasurements True 0
       ((init_state True False 0)
          \<lparr> imu_buf := [imu_at 9.9 (0, 0, 0), imu_at 10.1 (0, 0, 0)],
            feature_buf := [feature_at 10],
            gnss_meas_buf := [],
            effects := [SetParameter, InputGNSSTimeDiff 0,
                        Warn ''throw gnss, only should happen at the beginning''] \<rparr>)
       fresh_outs = Inr (False, s2, fresh_outs) \<and>
     imu_buf s2 = [imu_at 9.9 (0, 0, 0), imu_at 10.1 (0, 0, 0)] \<and>
     feature_buf s2 = [feature_at 10] \<and>
     gnss_meas_buf s2 = [] \<and>
     relo_buf s2 = [])"
proof -
  have h: "getMeasurements True 0
     ((init_state True False 0)
        \<lparr> imu_buf := [imu_at 9.9 (0, 0, 0), imu_at 10.1 (0, 0, 0)],
          feature_buf := [feature_at 10],
          gnss_meas_buf := [epoch_at 9] \<rparr>)
     fresh_outs =
   Inr (False,
     (init_state True False 0)
        \<lparr> imu_buf := [imu_at 9.9 (0, 0, 0), imu_at 10.1 (0, 0, 0)],
          feature_buf := [feature_at 10],
          gnss_meas_buf := [],
          effects := [SetParameter, InputGNSSTimeDiff 0,
                      Warn ''throw gnss, only should happen at the beginning''] \<rparr>,
     fresh_outs)"
    by (simp add: getMeasurements_def align_gnss_def init_state_def imu_at_def feature_at_def
        epoch_at_def epoch_ts_def MAX_GNSS_CAMERA_DELAY_def d64_eval)
  from getMeasurements_false_idempotent [OF h] h show ?thesis
    by (simp add: init_state_def)
qed

subsection \<open>Reading the front of an empty queue\<close>

text \<open>
  Claim C8. The claim is that, under the wake-up precondition, \<^verbatim>\<open>getMeasurements\<close>
  never reads the front of an empty queue. The code does read it. In the first
  state below the only feature is older than the oldest IMU sample: the loop of lines
  175-180 pops it and then reads \<^verbatim>\<open>feature_buf.front()\<close>. In the second state a stale
  feature is followed by one newer than every IMU sample: the loop of lines 217-221
  pops all of \<^verbatim>\<open>imu_buf\<close> and then reads \<^verbatim>\<open>imu_buf.front()\<close>. Both states satisfy the
  precondition: the queues are not empty, GNSS is disabled, and the newest IMU stamp
  (6) exceeds the oldest feature stamp (1).
\<close>

theorem getMeasurements_reads_empty_front:
  "getMeasurements False 0
     ((init_state False False 0)
        \<lparr> imu_buf := [imu_at 5 (0, 0, 0), imu_at 6 (0, 0, 0)],
          feature_buf := [feature_at 1] \<rparr>)
     fresh_outs = Inl EmptyFront \<and>
   getMeasurements False 0
     ((init_state False False 0)
        \<lparr> imu_buf := [imu_at 5 (0, 0, 0), imu_at 6 (0, 0, 0)],
          feature_buf := [feature_at 1, feature_at 10] \<rparr>)
     fresh_outs = Inl EmptyFront"
  by (simp add: getMeasurements_def init_state_def take_img_and_imu_def fresh_outs_def
      imu_at_def feature_at_def)

subsection \<open>What a successful call does\<close>


lemma throw_img_Inr:
  "throw_img fi ff fb lg = Inr (ff', fb', lg') \<Longrightarrow> fb \<noteq> [] \<Longrightarrow> ff = fstamp (hd fb) \<Longrightarrow>
   fb' = dropWhile (\<lambda>f. fstamp f < fi) fb \<and> fb' \<noteq> [] \<and> ff' = fstamp (hd fb')"
proof (induction fi ff fb lg rule: throw_img.induct)
  case (1 fi ff lg)
  then show ?case by simp
next
  case (2 fi ff f fs lg)
  show ?case
  proof (cases "fi > ff")
    case False
    with "2.prems" show ?thesis by auto
  next
    case True
    show ?thesis
    proof (cases fs)
      case Nil
      with True "2.prems" show ?thesis by simp
    next
      case (Cons f' fs')
      with True "2.prems"
      have "throw_img fi (fstamp f') fs
              (lg @ [Warn ''throw img, only should happen at the beginning'']) = Inr (ff', fb', lg')"
        by simp
      moreover have "fs \<noteq> []" "fstamp f' = fstamp (hd fs)" using Cons by simp_all
      ultimately
      have "fb' = dropWhile (\<lambda>f. fstamp f < fi) fs \<and> fb' \<noteq> [] \<and> ff' = fstamp (hd fb')"
        using "2.IH" [OF True Cons] by blast
      moreover have "dropWhile (\<lambda>f. fstamp f < fi) (f # fs) = dropWhile (\<lambda>f. fstamp f < fi) fs"
        using True "2.prems"(3) by simp
      ultimately show ?thesis by metis
    qed
  qed
qed

lemma throw_gnss_Inr:
  "throw_gnss thr fg gb lg = Inr (fg', gb', lg') \<Longrightarrow> gb \<noteq> [] \<Longrightarrow> fg = epoch_ts (hd gb) \<Longrightarrow>
   gb' = dropWhile (\<lambda>e. epoch_ts e < thr) gb \<and> gb' \<noteq> [] \<and> fg' = epoch_ts (hd gb')"
proof (induction thr fg gb lg rule: throw_gnss.induct)
  case (1 thr fg lg)
  then show ?case by simp
next
  case (2 thr fg e es lg)
  show ?case
  proof (cases "fg < thr")
    case False
    with "2.prems" show ?thesis by auto
  next
    case True
    show ?thesis
    proof (cases es)
      case Nil
      with True "2.prems" show ?thesis by simp
    next
      case (Cons e' es')
      with True "2.prems"
      have "throw_gnss thr (epoch_ts e') es
              (lg @ [Warn ''throw gnss, only should happen at the beginning'']) = Inr (fg', gb', lg')"
        by simp
      moreover have "es \<noteq> []" "epoch_ts e' = epoch_ts (hd es)" using Cons by simp_all
      ultimately
      have "gb' = dropWhile (\<lambda>e. epoch_ts e < thr) es \<and> gb' \<noteq> [] \<and> fg' = epoch_ts (hd gb')"
        using "2.IH" [OF True Cons] by blast
      moreover have "dropWhile (\<lambda>e. epoch_ts e < thr) (e # es) = dropWhile (\<lambda>e. epoch_ts e < thr) es"
        using True "2.prems"(3) by simp
      ultimately show ?thesis by metis
    qed
  qed
qed

lemma drain_imu_Inr:
  "drain_imu l buf out = Inr (buf', out') \<Longrightarrow>
   out' = out @ takeWhile (\<lambda>m. stamp m < l) buf \<and>
   buf' = dropWhile (\<lambda>m. stamp m < l) buf \<and> buf' \<noteq> []"
  by (induction l buf out rule: drain_imu.induct) (auto split: if_splits)


lemma take_img_and_imu_Inr:
  assumes "take_img_and_imu td s out = Inr (b, s', out')"
  shows "\<exists>img fs. feature_buf s = img # fs \<and> feature_buf s' = fs \<and> img_msg out' = Some img \<and>
     imu_buf s' = dropWhile (\<lambda>m. stamp m < fstamp img + td) (imu_buf s) \<and> imu_buf s' \<noteq> [] \<and>
     imu_msg out' = imu_msg out @ takeWhile (\<lambda>m. stamp m < fstamp img + td) (imu_buf s) @
                      [hd (imu_buf s')] \<and>
     gnss_meas_buf s' = gnss_meas_buf s \<and> gnss_msg out' = gnss_msg out"
proof (cases "feature_buf s")
  case Nil
  with assms show ?thesis by (simp add: take_img_and_imu_def)
next
  case (Cons img fs)
  show ?thesis
  proof (cases "drain_imu (fstamp img + td) (imu_buf s) (imu_msg out)")
    case (Inl e)
    with assms Cons show ?thesis by (simp add: take_img_and_imu_def)
  next
    case (Inr p)
    obtain buf taken where p: "p = (buf, taken)" by (cases p) auto
    from drain_imu_Inr [OF Inr [unfolded p]]
    have d: "taken = imu_msg out @ takeWhile (\<lambda>m. stamp m < fstamp img + td) (imu_buf s)"
      "buf = dropWhile (\<lambda>m. stamp m < fstamp img + td) (imu_buf s)" "buf \<noteq> []"
      by blast+
    from d(3) obtain m ms where buf: "buf = m # ms" by (cases buf) auto
    from assms Cons Inr p buf
    have "s' = s\<lparr>feature_buf := fs, imu_buf := buf\<rparr>"
      "out' = out\<lparr>img_msg := Some img, imu_msg := taken @ [m]\<rparr>"
      by (simp_all add: take_img_and_imu_def)
    with Cons d(1) d(2) [symmetric] buf show ?thesis by simp
  qed
qed

lemma align_gnss_Some:
  assumes "align_gnss ff0 s out = Inr (s', Some out')"
  shows "dropWhile (\<lambda>e. epoch_ts e < dsub (dadd ff0 (time_diff_gnss_local s)) MAX_GNSS_CAMERA_DELAY)
           (gnss_meas_buf s) \<noteq> [] \<and>
         (let e = hd (dropWhile (\<lambda>e. epoch_ts e < dsub (dadd ff0 (time_diff_gnss_local s)) MAX_GNSS_CAMERA_DELAY)
                       (gnss_meas_buf s));
              es = tl (dropWhile (\<lambda>e. epoch_ts e < dsub (dadd ff0 (time_diff_gnss_local s)) MAX_GNSS_CAMERA_DELAY)
                       (gnss_meas_buf s))
          in if \<bar>dsub (epoch_ts e) (dadd ff0 (time_diff_gnss_local s))\<bar> < MAX_GNSS_CAMERA_DELAY
             then gnss_meas_buf s' = es \<and> out' = out\<lparr>gnss_msg := epoch_vec e\<rparr>
             else gnss_meas_buf s' = e # es \<and> out' = out) \<and>
         feature_buf s' = feature_buf s \<and> imu_buf s' = imu_buf s"
proof (cases "gnss_meas_buf s")
  case Nil
  with assms show ?thesis by (simp add: align_gnss_def)
next
  case (Cons e0 es0)
  show ?thesis
  proof (cases "throw_gnss (dsub (dadd ff0 (time_diff_gnss_local s)) MAX_GNSS_CAMERA_DELAY) (epoch_ts e0)
                  (e0 # es0) (effects s)")
    case (Inl lg)
    with assms Cons show ?thesis by (simp add: align_gnss_def)
  next
    case (Inr t)
    obtain fg gb lg where t: "t = (fg, gb, lg)" by (cases t) auto
    have "gb = dropWhile (\<lambda>e. epoch_ts e < dsub (dadd ff0 (time_diff_gnss_local s)) MAX_GNSS_CAMERA_DELAY)
                 (e0 # es0) \<and> gb \<noteq> [] \<and> fg = epoch_ts (hd gb)"
      by (rule throw_gnss_Inr [OF Inr [unfolded t]]) simp_all
    then have g: "gb = dropWhile (\<lambda>e. epoch_ts e < dsub (dadd ff0 (time_diff_gnss_local s)) MAX_GNSS_CAMERA_DELAY)
                 (gnss_meas_buf s)" "gb \<noteq> []" "fg = epoch_ts (hd gb)"
      using Cons by metis+
    from g(2) obtain e es where gb: "gb = e # es" by (cases gb) auto
    show ?thesis
    proof (cases "\<bar>dsub fg (dadd ff0 (time_diff_gnss_local s))\<bar> < MAX_GNSS_CAMERA_DELAY")
      case True
      with assms Cons Inr t gb
      have "s' = s\<lparr>gnss_meas_buf := es, effects := lg\<rparr>" "out' = out\<lparr>gnss_msg := epoch_vec e\<rparr>"
        by (simp_all add: align_gnss_def)
      with True g(1) [symmetric] g(3) gb show ?thesis by simp
    next
      case False
      with assms Cons Inr t gb
      have "s' = s\<lparr>gnss_meas_buf := e # es, effects := lg\<rparr>" "out' = out"
        by (simp_all add: align_gnss_def)
      with False g(1) [symmetric] g(3) gb show ?thesis by simp
    qed
  qed
qed


lemma getMeasurements_True:
  assumes "getMeasurements en td s out = Inr (True, s', out')"
  shows "\<exists>img fs.
     imu_buf s \<noteq> [] \<and> feature_buf s \<noteq> [] \<and>
     dropWhile (\<lambda>f. fstamp f < stamp (hd (imu_buf s))) (feature_buf s) = img # fs \<and>
     feature_buf s' = fs \<and> img_msg out' = Some img \<and>
     imu_buf s' = dropWhile (\<lambda>m. stamp m < fstamp img + td) (imu_buf s) \<and> imu_buf s' \<noteq> [] \<and>
     imu_msg out' = imu_msg out @ takeWhile (\<lambda>m. stamp m < fstamp img + td) (imu_buf s) @
                      [hd (imu_buf s')] \<and>
     (if en
      then dropWhile (\<lambda>e. epoch_ts e < dsub (dadd (fstamp img) (time_diff_gnss_local s)) MAX_GNSS_CAMERA_DELAY)
             (gnss_meas_buf s) \<noteq> [] \<and>
           (let e = hd (dropWhile
                      (\<lambda>e. epoch_ts e < dsub (dadd (fstamp img) (time_diff_gnss_local s)) MAX_GNSS_CAMERA_DELAY)
                      (gnss_meas_buf s));
                es = tl (dropWhile
                      (\<lambda>e. epoch_ts e < dsub (dadd (fstamp img) (time_diff_gnss_local s)) MAX_GNSS_CAMERA_DELAY)
                      (gnss_meas_buf s))
            in if \<bar>dsub (epoch_ts e) (dadd (fstamp img) (time_diff_gnss_local s))\<bar> < MAX_GNSS_CAMERA_DELAY
               then gnss_meas_buf s' = es \<and> gnss_msg out' = epoch_vec e
               else gnss_meas_buf s' = e # es \<and> gnss_msg out' = gnss_msg out)
      else gnss_meas_buf s' = gnss_meas_buf s \<and> gnss_msg out' = gnss_msg out)"
proof -
  have ne: "\<not> (imu_buf s = [] \<or> feature_buf s = [] \<or> (en \<and> gnss_meas_buf s = []))"
  proof
    assume "imu_buf s = [] \<or> feature_buf s = [] \<or> (en \<and> gnss_meas_buf s = [])"
    from getMeasurements_empty [OF this, of td out] assms show False by simp
  qed
  have gt: "stamp (last (imu_buf s)) > fstamp (hd (feature_buf s))"
  proof (rule ccontr)
    assume "\<not> stamp (last (imu_buf s)) > fstamp (hd (feature_buf s))"
    from getMeasurements_wait [OF ne this, of td out] assms show False by simp
  qed
  note main = getMeasurements_main [OF ne gt, of td out]
  show ?thesis
  proof (cases "throw_img (stamp (hd (imu_buf s))) (fstamp (hd (feature_buf s)))
             (feature_buf s) (effects s)")
    case (Inl e)
    with main assms show ?thesis by simp
  next
    case (Inr t)
    obtain ff fb lg where t: "t = (ff, fb, lg)" by (cases t) auto
    have "fb = dropWhile (\<lambda>f. fstamp f < stamp (hd (imu_buf s))) (feature_buf s) \<and> fb \<noteq> [] \<and>
          ff = fstamp (hd fb)"
      using ne by (intro throw_img_Inr [OF Inr [unfolded t]]) simp_all
    then have fb: "dropWhile (\<lambda>f. fstamp f < stamp (hd (imu_buf s))) (feature_buf s) = fb"
      and ff: "ff = fstamp (hd fb)" by blast+
    define s1 where "s1 = s\<lparr>feature_buf := fb, effects := lg\<rparr>"
    have s1: "feature_buf s1 = fb" "imu_buf s1 = imu_buf s" "gnss_meas_buf s1 = gnss_meas_buf s"
      "time_diff_gnss_local s1 = time_diff_gnss_local s"
      by (simp_all add: s1_def)
    show ?thesis
    proof (cases en)
      case False
      with main assms Inr t have "take_img_and_imu td s1 out = Inr (True, s', out')"
        by (simp add: s1_def)
      from take_img_and_imu_Inr [OF this] obtain img fs where
        k: "feature_buf s1 = img # fs" "feature_buf s' = fs" "img_msg out' = Some img"
           "imu_buf s' = dropWhile (\<lambda>m. stamp m < fstamp img + td) (imu_buf s1)" "imu_buf s' \<noteq> []"
           "imu_msg out' = imu_msg out @ takeWhile (\<lambda>m. stamp m < fstamp img + td) (imu_buf s1) @
                      [hd (imu_buf s')]"
           "gnss_meas_buf s' = gnss_meas_buf s1" "gnss_msg out' = gnss_msg out"
        by blast
      show ?thesis
      proof (intro exI conjI)
        show "dropWhile (\<lambda>f. fstamp f < stamp (hd (imu_buf s))) (feature_buf s) = img # fs"
          using fb k(1) s1(1) by metis
        show "imu_buf s' = dropWhile (\<lambda>m. stamp m < fstamp img + td) (imu_buf s)"
          using k(4) s1(2) by simp
        show "imu_msg out' = imu_msg out @ takeWhile (\<lambda>m. stamp m < fstamp img + td) (imu_buf s) @
                      [hd (imu_buf s')]"
          using k(6) s1(2) by simp
        show "if en
      then dropWhile (\<lambda>e. epoch_ts e < dsub (dadd (fstamp img) (time_diff_gnss_local s)) MAX_GNSS_CAMERA_DELAY)
             (gnss_meas_buf s) \<noteq> [] \<and>
           (let e = hd (dropWhile
                      (\<lambda>e. epoch_ts e < dsub (dadd (fstamp img) (time_diff_gnss_local s)) MAX_GNSS_CAMERA_DELAY)
                      (gnss_meas_buf s));
                es = tl (dropWhile
                      (\<lambda>e. epoch_ts e < dsub (dadd (fstamp img) (time_diff_gnss_local s)) MAX_GNSS_CAMERA_DELAY)
                      (gnss_meas_buf s))
            in if \<bar>dsub (epoch_ts e) (dadd (fstamp img) (time_diff_gnss_local s))\<bar> < MAX_GNSS_CAMERA_DELAY
               then gnss_meas_buf s' = es \<and> gnss_msg out' = epoch_vec e
               else gnss_meas_buf s' = e # es \<and> gnss_msg out' = gnss_msg out)
      else gnss_meas_buf s' = gnss_meas_buf s \<and> gnss_msg out' = gnss_msg out"
          using False k(7,8) s1(3) by simp
      qed (use ne k in blast)+
    next
      case en: True
      show ?thesis
      proof (cases "align_gnss ff s1 out")
        case (Inl e)
        with main assms Inr t en show ?thesis by (simp add: s1_def)
      next
        case a: (Inr p)
        obtain s2 o2 where p: "p = (s2, o2)" by (cases p) auto
        show ?thesis
        proof (cases o2)
          case None
          with main assms Inr t en a p show ?thesis by (simp add: s1_def)
        next
          case (Some out2)
          with main assms Inr t en a p
          have tk: "take_img_and_imu td s2 out2 = Inr (True, s', out')" by (simp add: s1_def)
          from a p Some have al: "align_gnss ff s1 out = Inr (s2, Some out2)" by simp
          note g = align_gnss_Some [OF al, unfolded s1]
          from g have g2: "feature_buf s2 = fb" "imu_buf s2 = imu_buf s" by blast+
          from take_img_and_imu_Inr [OF tk] obtain img fs where
            k: "feature_buf s2 = img # fs" "feature_buf s' = fs" "img_msg out' = Some img"
             "imu_buf s' = dropWhile (\<lambda>m. stamp m < fstamp img + td) (imu_buf s2)" "imu_buf s' \<noteq> []"
             "imu_msg out' = imu_msg out2 @ takeWhile (\<lambda>m. stamp m < fstamp img + td) (imu_buf s2) @
                      [hd (imu_buf s')]"
             "gnss_meas_buf s' = gnss_meas_buf s2" "gnss_msg out' = gnss_msg out2"
            by blast
          have ffi: "ff = fstamp img" using ff g2(1) k(1) by (metis list.sel(1))
          have io: "imu_msg out2 = imu_msg out"
            using g by (auto simp: Let_def split: if_splits)
          show ?thesis
          proof (intro exI conjI)
            show "dropWhile (\<lambda>f. fstamp f < stamp (hd (imu_buf s))) (feature_buf s) = img # fs"
              using fb k(1) g2(1) by metis
            show "imu_buf s' = dropWhile (\<lambda>m. stamp m < fstamp img + td) (imu_buf s)"
              using k(4) g2(2) by simp
            show "imu_msg out' = imu_msg out @ takeWhile (\<lambda>m. stamp m < fstamp img + td) (imu_buf s) @
                      [hd (imu_buf s')]"
              using k(6) g2(2) io by simp
            show "if en
      then dropWhile (\<lambda>e. epoch_ts e < dsub (dadd (fstamp img) (time_diff_gnss_local s)) MAX_GNSS_CAMERA_DELAY)
             (gnss_meas_buf s) \<noteq> [] \<and>
           (let e = hd (dropWhile
                      (\<lambda>e. epoch_ts e < dsub (dadd (fstamp img) (time_diff_gnss_local s)) MAX_GNSS_CAMERA_DELAY)
                      (gnss_meas_buf s));
                es = tl (dropWhile
                      (\<lambda>e. epoch_ts e < dsub (dadd (fstamp img) (time_diff_gnss_local s)) MAX_GNSS_CAMERA_DELAY)
                      (gnss_meas_buf s))
            in if \<bar>dsub (epoch_ts e) (dadd (fstamp img) (time_diff_gnss_local s))\<bar> < MAX_GNSS_CAMERA_DELAY
               then gnss_meas_buf s' = es \<and> gnss_msg out' = epoch_vec e
               else gnss_meas_buf s' = e # es \<and> gnss_msg out' = gnss_msg out)
      else gnss_meas_buf s' = gnss_meas_buf s \<and> gnss_msg out' = gnss_msg out"
              using en g [unfolded ffi] k(7,8) by (auto simp: Let_def split: if_splits)
          qed (use ne k in blast)+
        qed
      qed
    qed
  qed
qed

subsection \<open>Pairing the image with a GNSS epoch\<close>

lemma stale_gnss_scenario:
  "getMeasurements True 0
     ((init_state True False 0)
        \<lparr> imu_buf := [imu_at 9.5 (0, 0, 0), imu_at 10.5 (0, 0, 0)],
          feature_buf := [feature_at 10],
          gnss_meas_buf := [epoch_at (d64 9.8), epoch_at (d64 9.95), epoch_at (d64 10.02)] \<rparr>)
     fresh_outs =
   Inr (True,
     (init_state True False 0)
        \<lparr> imu_buf := [imu_at 10.5 (0, 0, 0)],
          feature_buf := [],
          gnss_meas_buf := [epoch_at (d64 9.95), epoch_at (d64 10.02)],
          effects := [SetParameter, InputGNSSTimeDiff 0,
                      Warn ''throw gnss, only should happen at the beginning''] \<rparr>,
     \<lparr> imu_msg = [imu_at 9.5 (0, 0, 0), imu_at 10.5 (0, 0, 0)],
       img_msg = Some (feature_at 10),
       gnss_msg = [] \<rparr>)"
  by (simp add: getMeasurements_def align_gnss_def take_img_and_imu_def init_state_def
      fresh_outs_def imu_at_def feature_at_def epoch_at_def epoch_ts_def
      MAX_GNSS_CAMERA_DELAY_def d64_eval)

lemma paired_gnss_scenario:
  "getMeasurements True 0
     ((init_state True False 0)
        \<lparr> imu_buf := [imu_at 9.5 (0, 0, 0), imu_at 10.5 (0, 0, 0)],
          feature_buf := [feature_at 10],
          gnss_meas_buf := [epoch_at (d64 9.8), epoch_at (d64 9.94), epoch_at (d64 10.02)] \<rparr>)
     fresh_outs =
   Inr (True,
     (init_state True False 0)
        \<lparr> imu_buf := [imu_at 10.5 (0, 0, 0)],
          feature_buf := [],
          gnss_meas_buf := [],
          effects := [SetParameter, InputGNSSTimeDiff 0,
                      Warn ''throw gnss, only should happen at the beginning'',
                      Warn ''throw gnss, only should happen at the beginning''] \<rparr>,
     \<lparr> imu_msg = [imu_at 9.5 (0, 0, 0), imu_at 10.5 (0, 0, 0)],
       img_msg = Some (feature_at 10),
       gnss_msg = epoch_vec (epoch_at (d64 10.02)) \<rparr>)"
  by (simp add: getMeasurements_def align_gnss_def take_img_and_imu_def init_state_def
      fresh_outs_def imu_at_def feature_at_def epoch_at_def epoch_ts_def
      MAX_GNSS_CAMERA_DELAY_def d64_eval)

lemma on_threshold:
  "epoch_ts (epoch_at (d64 9.95)) < fstamp (feature_at 10) + 0 - 0.05"
  "\<not> epoch_ts (epoch_at (d64 9.95)) < dsub (dadd (fstamp (feature_at 10)) 0) (d64 0.05)"
  "\<not> \<bar>dsub (epoch_ts (epoch_at (d64 9.95))) (dadd (fstamp (feature_at 10)) 0)\<bar> < d64 0.05"
  by (simp_all add: feature_at_def epoch_at_def epoch_ts_def d64_eval)

text \<open>
  Claim C1, as amended. With GNSS enabled, whenever \<^verbatim>\<open>getMeasurements\<close> returns true
  for the image \<open>img\<close>, with the sum \<open>t_feat + \<Delta>\<close>, the differences and the constant
  0.05 taken in double precision, as the code computes them: the GNSS queue splits into
  the epochs dropped, all older than \<open>(t_feat + \<Delta>) - 0.05\<close>, and the rest, which is not
  empty and whose front is not that old; the bundle holds a GNSS epoch iff that front
  epoch has \<open>|t_gnss - (t_feat + \<Delta>)| < 0.05\<close>, in which case it is that epoch and it is
  popped; otherwise the image is emitted without GNSS and the queue keeps the front
  epoch. In the scenario (\<open>\<Delta> = 0\<close>, feature at 10.00, epochs at the doubles nearest to
  9.80, 9.95 and 10.02) only 9.80 is dropped: the double \<open>10.00 - 0.05\<close> is the double
  9.95, and the double \<open>|9.95 - 10.00|\<close> exceeds the double 0.05, so the image is emitted
  without GNSS and 9.95 and 10.02 stay in the queue.
\<close>

theorem getMeasurements_gnss_alignment:
  "(getMeasurements True td s fresh_outs = Inr (True, s', out') \<longrightarrow>
     (\<exists>img dropped rest.
        img_msg out' = Some img \<and>
        gnss_meas_buf s = dropped @ rest \<and>
        (\<forall>e \<in> set dropped.
           epoch_ts e < dsub (dadd (fstamp img) (time_diff_gnss_local s)) (d64 0.05)) \<and>
        rest \<noteq> [] \<and>
        \<not> epoch_ts (hd rest) < dsub (dadd (fstamp img) (time_diff_gnss_local s)) (d64 0.05) \<and>
        (gnss_msg out' \<noteq> [] \<longleftrightarrow>
           \<bar>dsub (epoch_ts (hd rest)) (dadd (fstamp img) (time_diff_gnss_local s))\<bar> < d64 0.05) \<and>
        (if \<bar>dsub (epoch_ts (hd rest)) (dadd (fstamp img) (time_diff_gnss_local s))\<bar> < d64 0.05
         then gnss_msg out' = epoch_vec (hd rest) \<and> gnss_meas_buf s' = tl rest
         else gnss_msg out' = [] \<and> gnss_meas_buf s' = rest))) \<and>
   (\<exists>s' out'.
      getMeasurements True 0
        ((init_state True False 0)
           \<lparr> imu_buf := [imu_at 9.5 (0, 0, 0), imu_at 10.5 (0, 0, 0)],
             feature_buf := [feature_at 10],
             gnss_meas_buf := [epoch_at (d64 9.8), epoch_at (d64 9.95), epoch_at (d64 10.02)] \<rparr>)
        fresh_outs = Inr (True, s', out') \<and>
      img_msg out' = Some (feature_at 10) \<and>
      gnss_msg out' = [] \<and>
      gnss_meas_buf s' = [epoch_at (d64 9.95), epoch_at (d64 10.02)])"
proof (intro conjI impI)
  assume a: "getMeasurements True td s fresh_outs = Inr (True, s', out')"
  from getMeasurements_True [OF a] obtain img where
    im: "img_msg out' = Some img" and
    g: "dropWhile (\<lambda>e. epoch_ts e < dsub (dadd (fstamp img) (time_diff_gnss_local s)) MAX_GNSS_CAMERA_DELAY)
             (gnss_meas_buf s) \<noteq> [] \<and>
           (let e = hd (dropWhile
                      (\<lambda>e. epoch_ts e < dsub (dadd (fstamp img) (time_diff_gnss_local s)) MAX_GNSS_CAMERA_DELAY)
                      (gnss_meas_buf s));
                es = tl (dropWhile
                      (\<lambda>e. epoch_ts e < dsub (dadd (fstamp img) (time_diff_gnss_local s)) MAX_GNSS_CAMERA_DELAY)
                      (gnss_meas_buf s))
            in if \<bar>dsub (epoch_ts e) (dadd (fstamp img) (time_diff_gnss_local s))\<bar> < MAX_GNSS_CAMERA_DELAY
               then gnss_meas_buf s' = es \<and> gnss_msg out' = epoch_vec e
               else gnss_meas_buf s' = e # es \<and> gnss_msg out' = gnss_msg fresh_outs)"
    by (simp only: if_True) blast
  define P where
    "P = (\<lambda>e. epoch_ts e < dsub (dadd (fstamp img) (time_diff_gnss_local s)) (d64 0.05))"
  define dropped where "dropped = takeWhile P (gnss_meas_buf s)"
  define rest where "rest = dropWhile P (gnss_meas_buf s)"
  have split: "gnss_meas_buf s = dropped @ rest"
    by (simp add: dropped_def rest_def)
  have old: "\<forall>e \<in> set dropped. P e"
    unfolding dropped_def by (meson set_takeWhileD)
  from g have rne: "rest \<noteq> []"
    and body: "if \<bar>dsub (epoch_ts (hd rest)) (dadd (fstamp img) (time_diff_gnss_local s))\<bar> < d64 0.05
               then gnss_meas_buf s' = tl rest \<and> gnss_msg out' = epoch_vec (hd rest)
               else gnss_meas_buf s' = hd rest # tl rest \<and> gnss_msg out' = []"
    unfolding rest_def P_def MAX_GNSS_CAMERA_DELAY_def Let_def fresh_outs_def by simp_all
  have fresh: "\<not> P (hd rest)"
    using rne unfolding rest_def by (rule hd_dropWhile)
  have vec: "epoch_vec (hd rest) \<noteq> []" by (simp add: epoch_vec_def)
  have iff: "gnss_msg out' \<noteq> [] \<longleftrightarrow>
           \<bar>dsub (epoch_ts (hd rest)) (dadd (fstamp img) (time_diff_gnss_local s))\<bar> < d64 0.05"
    using body vec by (simp split: if_splits)
  have body': "if \<bar>dsub (epoch_ts (hd rest)) (dadd (fstamp img) (time_diff_gnss_local s))\<bar> < d64 0.05
         then gnss_msg out' = epoch_vec (hd rest) \<and> gnss_meas_buf s' = tl rest
         else gnss_msg out' = [] \<and> gnss_meas_buf s' = rest"
    using body rne by (simp split: if_splits)
  show "\<exists>img dropped rest.
        img_msg out' = Some img \<and>
        gnss_meas_buf s = dropped @ rest \<and>
        (\<forall>e \<in> set dropped.
           epoch_ts e < dsub (dadd (fstamp img) (time_diff_gnss_local s)) (d64 0.05)) \<and>
        rest \<noteq> [] \<and>
        \<not> epoch_ts (hd rest) < dsub (dadd (fstamp img) (time_diff_gnss_local s)) (d64 0.05) \<and>
        (gnss_msg out' \<noteq> [] \<longleftrightarrow>
           \<bar>dsub (epoch_ts (hd rest)) (dadd (fstamp img) (time_diff_gnss_local s))\<bar> < d64 0.05) \<and>
        (if \<bar>dsub (epoch_ts (hd rest)) (dadd (fstamp img) (time_diff_gnss_local s))\<bar> < d64 0.05
         then gnss_msg out' = epoch_vec (hd rest) \<and> gnss_meas_buf s' = tl rest
         else gnss_msg out' = [] \<and> gnss_meas_buf s' = rest)"
    using im split old [unfolded P_def] rne fresh [unfolded P_def] iff body' by blast
next
  show "\<exists>s' out'.
      getMeasurements True 0
        ((init_state True False 0)
           \<lparr> imu_buf := [imu_at 9.5 (0, 0, 0), imu_at 10.5 (0, 0, 0)],
             feature_buf := [feature_at 10],
             gnss_meas_buf := [epoch_at (d64 9.8), epoch_at (d64 9.95), epoch_at (d64 10.02)] \<rparr>)
        fresh_outs = Inr (True, s', out') \<and>
      img_msg out' = Some (feature_at 10) \<and>
      gnss_msg out' = [] \<and>
      gnss_meas_buf s' = [epoch_at (d64 9.95), epoch_at (d64 10.02)]"
    using stale_gnss_scenario by simp
qed

text \<open>
  The rule at an input where an epoch is paired: with the epochs 9.80, 9.94 and 10.02
  the first two are dropped and 10.02 goes into the bundle.
\<close>

theorem getMeasurements_gnss_alignment_witness:
  "getMeasurements True 0
     ((init_state True False 0)
        \<lparr> imu_buf := [imu_at 9.5 (0, 0, 0), imu_at 10.5 (0, 0, 0)],
          feature_buf := [feature_at 10],
          gnss_meas_buf := [epoch_at (d64 9.8), epoch_at (d64 9.94), epoch_at (d64 10.02)] \<rparr>)
     fresh_outs =
   Inr (True,
     (init_state True False 0)
        \<lparr> imu_buf := [imu_at 10.5 (0, 0, 0)],
          feature_buf := [],
          gnss_meas_buf := [],
          effects := [SetParameter, InputGNSSTimeDiff 0,
                      Warn ''throw gnss, only should happen at the beginning'',
                      Warn ''throw gnss, only should happen at the beginning''] \<rparr>,
     \<lparr> imu_msg = [imu_at 9.5 (0, 0, 0), imu_at 10.5 (0, 0, 0)],
       img_msg = Some (feature_at 10),
       gnss_msg = epoch_vec (epoch_at (d64 10.02)) \<rparr>) \<and>
   (\<exists>dropped rest.
      [epoch_at (d64 9.8), epoch_at (d64 9.94), epoch_at (d64 10.02)] = dropped @ rest \<and>
      (\<forall>e \<in> set dropped. epoch_ts e < dsub (dadd 10 0) (d64 0.05)) \<and>
      rest \<noteq> [] \<and>
      \<not> epoch_ts (hd rest) < dsub (dadd 10 0) (d64 0.05) \<and>
      \<bar>dsub (epoch_ts (hd rest)) (dadd 10 0)\<bar> < d64 0.05 \<and>
      epoch_vec (epoch_at (d64 10.02)) = epoch_vec (hd rest) \<and> [] = tl rest)"
proof -
  note h = paired_gnss_scenario
  have v: "epoch_vec (epoch_at (d64 10.02)) \<noteq> []" by (simp add: epoch_vec_def)
  from getMeasurements_gnss_alignment [THEN conjunct1, rule_format, OF h] h v
  show ?thesis
    by (simp add: init_state_def feature_at_def split: if_splits) blast
qed

text \<open>
  The scenario of claim C1 as stated, where 9.95 would be dropped and 10.02 paired:
  the call leaves 9.95 and 10.02 in the queue and pairs nothing. In exact arithmetic
  the epoch is older than \<open>10.00 - 0.05\<close>; in the arithmetic of the code it is neither
  older than the threshold nor within 0.05 of the image.
\<close>

theorem getMeasurements_gnss_scenario_counterexample:
  "getMeasurements True 0
     ((init_state True False 0)
        \<lparr> imu_buf := [imu_at 9.5 (0, 0, 0), imu_at 10.5 (0, 0, 0)],
          feature_buf := [feature_at 10],
          gnss_meas_buf := [epoch_at (d64 9.8), epoch_at (d64 9.95), epoch_at (d64 10.02)] \<rparr>)
     fresh_outs =
   Inr (True,
     (init_state True False 0)
        \<lparr> imu_buf := [imu_at 10.5 (0, 0, 0)],
          feature_buf := [],
          gnss_meas_buf := [epoch_at (d64 9.95), epoch_at (d64 10.02)],
          effects := [SetParameter, InputGNSSTimeDiff 0,
                      Warn ''throw gnss, only should happen at the beginning''] \<rparr>,
     \<lparr> imu_msg = [imu_at 9.5 (0, 0, 0), imu_at 10.5 (0, 0, 0)],
       img_msg = Some (feature_at 10),
       gnss_msg = [] \<rparr>) \<and>
   epoch_ts (epoch_at (d64 9.95)) < fstamp (feature_at 10) + 0 - 0.05 \<and>
   \<not> epoch_ts (epoch_at (d64 9.95)) < dsub (dadd (fstamp (feature_at 10)) 0) (d64 0.05) \<and>
   \<not> \<bar>dsub (epoch_ts (epoch_at (d64 9.95))) (dadd (fstamp (feature_at 10)) 0)\<bar> < d64 0.05"
  using stale_gnss_scenario on_threshold by blast

subsection \<open>The IMU slice of a bundle\<close>

lemma stale_feature_scenario:
  "getMeasurements False 0
     ((init_state False False 0)
        \<lparr> imu_buf := [imu_at 5 (0, 0, 0), imu_at 6 (0, 0, 0)],
          feature_buf := [feature_at 1, feature_at 6] \<rparr>)
     fresh_outs =
   Inr (True,
     (init_state False False 0)
        \<lparr> imu_buf := [imu_at 6 (0, 0, 0)],
          feature_buf := [],
          effects := [SetParameter,
                      Warn ''throw img, only should happen at the beginning''] \<rparr>,
     \<lparr> imu_msg = [imu_at 5 (0, 0, 0), imu_at 6 (0, 0, 0)],
       img_msg = Some (feature_at 6),
       gnss_msg = [] \<rparr>)"
  by (simp add: getMeasurements_def take_img_and_imu_def init_state_def
      fresh_outs_def imu_at_def feature_at_def)

lemma lone_feature_waits:
  "getMeasurements False 0
     ((init_state False False 0)
        \<lparr> imu_buf := [imu_at 5 (0, 0, 0), imu_at 6 (0, 0, 0)],
          feature_buf := [feature_at 6] \<rparr>)
     fresh_outs =
   Inr (False,
     (init_state False False 0)
        \<lparr> imu_buf := [imu_at 5 (0, 0, 0), imu_at 6 (0, 0, 0)],
          feature_buf := [feature_at 6],
          sum_of_wait := 1 \<rparr>,
     fresh_outs)"
  by (simp add: getMeasurements_def init_state_def imu_at_def feature_at_def)

text \<open>
  What holds of every bundle: the IMU slice is not empty, its last sample has a stamp of
  at least \<open>img.t + td\<close>, every earlier sample has a stamp below \<open>img.t + td\<close>, and the
  IMU queue held a sample with a stamp of at least \<open>img.t + td\<close> when the call started.
\<close>

lemma getMeasurements_imu_slice:
  assumes "getMeasurements en td s fresh_outs = Inr (True, s', out')"
  shows "\<exists>img. img_msg out' = Some img \<and>
     imu_msg out' \<noteq> [] \<and>
     fstamp img + td \<le> stamp (last (imu_msg out')) \<and>
     (\<forall>m \<in> set (butlast (imu_msg out')). stamp m < fstamp img + td) \<and>
     (2 \<le> length (imu_msg out') \<longrightarrow>
        stamp (imu_msg out' ! (length (imu_msg out') - 2)) \<le> fstamp img + td) \<and>
     (\<exists>m \<in> set (imu_buf s). fstamp img + td \<le> stamp m)"
proof -
  from getMeasurements_True [OF assms] obtain img where
    im: "img_msg out' = Some img" and
    buf: "imu_buf s' = dropWhile (\<lambda>m. stamp m < fstamp img + td) (imu_buf s)" and
    ne: "imu_buf s' \<noteq> []" and
    sl: "imu_msg out' = imu_msg fresh_outs @
           takeWhile (\<lambda>m. stamp m < fstamp img + td) (imu_buf s) @ [hd (imu_buf s')]"
    by blast
  define older where "older = takeWhile (\<lambda>m. stamp m < fstamp img + td) (imu_buf s)"
  define straddle where "straddle = hd (imu_buf s')"
  have sl': "imu_msg out' = older @ [straddle]"
    using sl by (simp add: older_def straddle_def fresh_outs_def)
  have st: "\<not> stamp straddle < fstamp img + td"
    unfolding straddle_def buf using ne [unfolded buf] by (rule hd_dropWhile)
  have mem: "straddle \<in> set (imu_buf s)"
    unfolding straddle_def using ne buf by (metis hd_in_set set_dropWhileD)
  have old: "\<forall>m \<in> set older. stamp m < fstamp img + td"
    unfolding older_def by (meson set_takeWhileD)
  have snd: "2 \<le> length (imu_msg out') \<longrightarrow>
        stamp (imu_msg out' ! (length (imu_msg out') - 2)) \<le> fstamp img + td"
  proof
    assume "2 \<le> length (imu_msg out')"
    then have l: "older \<noteq> []" using sl' by auto
    then have "imu_msg out' ! (length (imu_msg out') - 2) = last older"
      using sl' by (simp add: nth_append last_conv_nth)
    moreover have "last older \<in> set older" using l by simp
    ultimately show "stamp (imu_msg out' ! (length (imu_msg out') - 2)) \<le> fstamp img + td"
      using old by fastforce
  qed
  show ?thesis
  proof (intro exI conjI)
    show "img_msg out' = Some img" by fact
    show "imu_msg out' \<noteq> []" using sl' by simp
    show "fstamp img + td \<le> stamp (last (imu_msg out'))" using sl' st by simp
    show "\<forall>m \<in> set (butlast (imu_msg out')). stamp m < fstamp img + td"
      using sl' old by simp
    show "2 \<le> length (imu_msg out') \<longrightarrow>
        stamp (imu_msg out' ! (length (imu_msg out') - 2)) \<le> fstamp img + td" by fact
    show "\<exists>m \<in> set (imu_buf s). fstamp img + td \<le> stamp m"
      using mem st by (intro bexI [of _ straddle]) simp_all
  qed
qed

text \<open>
  Claim C2. The claim is that a feature frame is handed on only when the IMU queue
  holds a sample strictly newer than \<open>t_feat + td\<close>. The code breaks it. With IMU
  samples at 5 and 6 and features at 1 and 6, the test of line 166 is made on the stale
  feature at 1; the loop of lines 175-180 then drops that feature, and the feature at 6
  is emitted with \<open>td = 0\<close> although no IMU sample is newer than 6. With the feature at
  6 alone the same test makes the call wait.
\<close>

theorem getMeasurements_emits_unspanned_frame:
  "getMeasurements False 0
     ((init_state False False 0)
        \<lparr> imu_buf := [imu_at 5 (0, 0, 0), imu_at 6 (0, 0, 0)],
          feature_buf := [feature_at 1, feature_at 6] \<rparr>)
     fresh_outs =
   Inr (True,
     (init_state False False 0)
        \<lparr> imu_buf := [imu_at 6 (0, 0, 0)],
          feature_buf := [],
          effects := [SetParameter,
                      Warn ''throw img, only should happen at the beginning''] \<rparr>,
     \<lparr> imu_msg = [imu_at 5 (0, 0, 0), imu_at 6 (0, 0, 0)],
       img_msg = Some (feature_at 6),
       gnss_msg = [] \<rparr>) \<and>
   \<not> stamp (imu_at 5 (0, 0, 0)) > fstamp (feature_at 6) + 0 \<and>
   \<not> stamp (imu_at 6 (0, 0, 0)) > fstamp (feature_at 6) + 0 \<and>
   getMeasurements False 0
     ((init_state False False 0)
        \<lparr> imu_buf := [imu_at 5 (0, 0, 0), imu_at 6 (0, 0, 0)],
          feature_buf := [feature_at 6] \<rparr>)
     fresh_outs =
   Inr (False,
     (init_state False False 0)
        \<lparr> imu_buf := [imu_at 5 (0, 0, 0), imu_at 6 (0, 0, 0)],
          feature_buf := [feature_at 6],
          sum_of_wait := 1 \<rparr>,
     fresh_outs)"
  using stale_feature_scenario lone_feature_waits by (simp add: imu_at_def feature_at_def)

section \<open>The IMU callback\<close>

lemma pop_all_Nil: "pop_all xs = []"
  by (induction xs) simp_all

lemma predict_frame:
  "imu_buf (predict deltaQ g s m) = imu_buf s"
  "last_imu_t (predict deltaQ g s m) = last_imu_t s"
  "effects (predict deltaQ g s m) = effects s"
  by (simp_all add: predict_def Let_def)

lemma imu_callback_accept:
  assumes "\<not> stamp m \<le> last_imu_t s"
  shows "imu_buf (imu_callback deltaQ g flag s m) = imu_buf s @ [m]"
    and "last_imu_t (imu_callback deltaQ g flag s m) = stamp m"
  using assms by (simp_all add: imu_callback_def Let_def predict_frame)

lemma imu_callback_reject:
  assumes "stamp m \<le> last_imu_t s"
  shows "imu_callback deltaQ g flag s m = s\<lparr>effects := effects s @ [Warn ''imu message in disorder!'']\<rparr>"
  using assms by (simp add: imu_callback_def)

lemma imu_callback_inv:
  assumes "sorted_wrt (<) (map stamp (imu_buf s))"
    and "\<forall>x \<in> set (imu_buf s). stamp x \<le> last_imu_t s"
  shows "sorted_wrt (<) (map stamp (imu_buf (imu_callback deltaQ g flag s m))) \<and>
         (\<forall>x \<in> set (imu_buf (imu_callback deltaQ g flag s m)).
            stamp x \<le> last_imu_t (imu_callback deltaQ g flag s m)) \<and>
         (\<exists>acc. imu_buf (imu_callback deltaQ g flag s m) = imu_buf s @ acc)"
proof (cases "stamp m \<le> last_imu_t s")
  case True
  with assms show ?thesis by (simp add: imu_callback_reject)
next
  case False
  have "sorted_wrt (<) (map stamp (imu_buf s @ [m]))"
    using assms False by (fastforce simp: sorted_wrt_append)
  moreover have "\<forall>x \<in> set (imu_buf s @ [m]). stamp x \<le> stamp m"
    using assms(2) False by fastforce
  ultimately show ?thesis
    by (simp only: imu_callback_accept [OF False]) blast
qed

lemma imu_callbacks_inv:
  "sorted_wrt (<) (map stamp (imu_buf s)) \<Longrightarrow>
   \<forall>x \<in> set (imu_buf s). stamp x \<le> last_imu_t s \<Longrightarrow>
   sorted_wrt (<) (map stamp (imu_buf (imu_callbacks deltaQ s ms))) \<and>
   (\<forall>x \<in> set (imu_buf (imu_callbacks deltaQ s ms)). stamp x \<le> last_imu_t (imu_callbacks deltaQ s ms)) \<and>
   (\<exists>acc. imu_buf (imu_callbacks deltaQ s ms) = imu_buf s @ acc)"
proof (induction ms arbitrary: s)
  case Nil
  then show ?case by simp
next
  case (Cons a ms)
  obtain g flag m where a: "a = (g, flag, m)" by (cases a) auto
  from imu_callback_inv [OF Cons.prems, of deltaQ g flag m]
  have 1: "sorted_wrt (<) (map stamp (imu_buf (imu_callback deltaQ g flag s m)))"
    and 2: "\<forall>x \<in> set (imu_buf (imu_callback deltaQ g flag s m)).
            stamp x \<le> last_imu_t (imu_callback deltaQ g flag s m)"
    and 3: "\<exists>acc. imu_buf (imu_callback deltaQ g flag s m) = imu_buf s @ acc"
    by blast+
  from Cons.IH [OF 1 2] 3 show ?case
    unfolding a imu_callbacks.simps by (metis append.assoc)
qed

text \<open>
  Claim C7, as amended. An IMU sample whose stamp is at most \<^verbatim>\<open>last_imu_t\<close> (the stamp
  of the last accepted sample, or 0 after a restart, or -1 at startup) is dropped: the
  callback only logs the warning, so \<^verbatim>\<open>last_imu_t\<close>, \<^verbatim>\<open>imu_buf\<close> and the state of
  \<^verbatim>\<open>predict\<close> stay as they were. Hence, starting from a state whose IMU queue has
  strictly increasing stamps bounded by \<^verbatim>\<open>last_imu_t\<close>, from the initial state, or
  from the state that a restart leaves, any run of the callback only appends to the
  queue and keeps the stamps strictly increasing. From the initial state, the samples
  at 1.00 and then 0.99 leave the first one alone in the queue and \<^verbatim>\<open>last_imu_t\<close> at
  1.00.
\<close>

theorem imu_callback_ordering:
  "(stamp m \<le> last_imu_t s \<longrightarrow>
      imu_callback deltaQ g flag s m =
        s\<lparr>effects := effects s @ [Warn ''imu message in disorder!'']\<rparr>) \<and>
   (sorted_wrt (<) (map stamp (imu_buf s)) \<and> (\<forall>x \<in> set (imu_buf s). stamp x \<le> last_imu_t s) \<longrightarrow>
      sorted_wrt (<) (map stamp (imu_buf (imu_callbacks deltaQ s ms))) \<and>
      (\<exists>acc. imu_buf (imu_callbacks deltaQ s ms) = imu_buf s @ acc)) \<and>
   sorted_wrt (<) (map stamp (imu_buf (imu_callbacks deltaQ (init_state en sync d) ms))) \<and>
   sorted_wrt (<) (map stamp (imu_buf (imu_callbacks deltaQ (restart_callback s True) ms))) \<and>
   imu_buf (imu_callbacks deltaQ (init_state en sync d)
              [(g1, flag1, imu_at 1 a1), (g2, flag2, imu_at 0.99 a2)]) = [imu_at 1 a1] \<and>
   last_imu_t (imu_callbacks deltaQ (init_state en sync d)
              [(g1, flag1, imu_at 1 a1), (g2, flag2, imu_at 0.99 a2)]) = 1"
proof (intro conjI impI)
  assume "stamp m \<le> last_imu_t s"
  then show "imu_callback deltaQ g flag s m =
        s\<lparr>effects := effects s @ [Warn ''imu message in disorder!'']\<rparr>"
    by (rule imu_callback_reject)
next
  assume a: "sorted_wrt (<) (map stamp (imu_buf s)) \<and> (\<forall>x \<in> set (imu_buf s). stamp x \<le> last_imu_t s)"
  then show "sorted_wrt (<) (map stamp (imu_buf (imu_callbacks deltaQ s ms)))"
    using imu_callbacks_inv [of s deltaQ ms] by blast
  from a show "\<exists>acc. imu_buf (imu_callbacks deltaQ s ms) = imu_buf s @ acc"
    using imu_callbacks_inv [of s deltaQ ms] by blast
next
  have "imu_buf (init_state en sync d) = []" by (simp add: init_state_def)
  then show "sorted_wrt (<) (map stamp (imu_buf (imu_callbacks deltaQ (init_state en sync d) ms)))"
    using imu_callbacks_inv [of "init_state en sync d" deltaQ ms] by simp
next
  have "imu_buf (restart_callback s True) = []"
    by (simp add: restart_callback_def clearState_def setParameter_def Let_def pop_all_Nil)
  then show "sorted_wrt (<) (map stamp (imu_buf (imu_callbacks deltaQ (restart_callback s True) ms)))"
    using imu_callbacks_inv [of "restart_callback s True" deltaQ ms] by simp
next
  show "imu_buf (imu_callbacks deltaQ (init_state en sync d)
              [(g1, flag1, imu_at 1 a1), (g2, flag2, imu_at 0.99 a2)]) = [imu_at 1 a1]"
    by (simp add: imu_callback_def Let_def predict_frame imu_at_def init_state_def)
  show "last_imu_t (imu_callbacks deltaQ (init_state en sync d)
              [(g1, flag1, imu_at 1 a1), (g2, flag2, imu_at 0.99 a2)]) = 1"
    by (simp add: imu_callback_def Let_def predict_frame imu_at_def init_state_def)
qed


text \<open>
  The rule at a state that has accepted a sample at 1: the sample at 0.99 is dropped, and
  of the samples at 2 and 1.5 that follow, the queue stays strictly increasing.
\<close>

theorem imu_callback_ordering_witness:
  "stamp (imu_at 0.99 (0, 0, 0)) \<le>
     last_imu_t ((init_state False False 0)\<lparr>imu_buf := [imu_at 1 (0, 0, 0)], last_imu_t := 1\<rparr>) \<and>
   imu_callback (\<lambda>v. \<lparr>qw = 1, qx = 0, qy = 0, qz = 0\<rparr>) (0, 0, 0) INITIAL
     ((init_state False False 0)\<lparr>imu_buf := [imu_at 1 (0, 0, 0)], last_imu_t := 1\<rparr>)
     (imu_at 0.99 (0, 0, 0)) =
   (init_state False False 0)
     \<lparr>imu_buf := [imu_at 1 (0, 0, 0)], last_imu_t := 1,
      effects := [SetParameter, Warn ''imu message in disorder!'']\<rparr> \<and>
   sorted_wrt (<) (map stamp (imu_buf
     ((init_state False False 0)\<lparr>imu_buf := [imu_at 1 (0, 0, 0)], last_imu_t := 1\<rparr>))) \<and>
   imu_buf ((init_state False False 0)\<lparr>imu_buf := [imu_at 1 (0, 0, 0)], last_imu_t := 1\<rparr>) =
     [imu_at 1 (0, 0, 0)] \<and>
   stamp (imu_at 1 (0, 0, 0)) \<le>
     last_imu_t ((init_state False False 0)\<lparr>imu_buf := [imu_at 1 (0, 0, 0)], last_imu_t := 1\<rparr>) \<and>
   sorted_wrt (<) (map stamp (imu_buf
     (imu_callbacks (\<lambda>v. \<lparr>qw = 1, qx = 0, qy = 0, qz = 0\<rparr>)
        ((init_state False False 0)\<lparr>imu_buf := [imu_at 1 (0, 0, 0)], last_imu_t := 1\<rparr>)
        [((0, 0, 0), INITIAL, imu_at 2 (0, 0, 0)), ((0, 0, 0), INITIAL, imu_at 1.5 (0, 0, 0))])))"
proof -
  let ?s = "(init_state False False 0)\<lparr>imu_buf := [imu_at 1 (0, 0, 0)], last_imu_t := 1\<rparr>"
  have h1: "stamp (imu_at 0.99 (0, 0, 0)) \<le> last_imu_t ?s"
    by (simp add: imu_at_def)
  have h2: "sorted_wrt (<) (map stamp (imu_buf ?s)) \<and>
      (\<forall>x \<in> set (imu_buf ?s). stamp x \<le> last_imu_t ?s)"
    by (simp add: imu_at_def)
  note t = imu_callback_ordering
  from t [THEN conjunct1, rule_format, OF h1]
  have "imu_callback (\<lambda>v. \<lparr>qw = 1, qx = 0, qy = 0, qz = 0\<rparr>) (0, 0, 0) INITIAL ?s
          (imu_at 0.99 (0, 0, 0)) =
        (init_state False False 0)
          \<lparr>imu_buf := [imu_at 1 (0, 0, 0)], last_imu_t := 1,
           effects := [SetParameter, Warn ''imu message in disorder!'']\<rparr>"
    by (simp add: init_state_def)
  moreover
  from t [THEN conjunct2, THEN conjunct1, rule_format, OF h2]
  have "sorted_wrt (<) (map stamp (imu_buf
     (imu_callbacks (\<lambda>v. \<lparr>qw = 1, qx = 0, qy = 0, qz = 0\<rparr>) ?s
        [((0, 0, 0), INITIAL, imu_at 2 (0, 0, 0)), ((0, 0, 0), INITIAL, imu_at 1.5 (0, 0, 0))])))"
    by blast
  ultimately show ?thesis using h1 h2 by simp
qed


text \<open>
  Claim C7 as stated compares with the last accepted sample and has the samples ever
  enqueued increase. After the sample at 5 a restart sets \<^verbatim>\<open>last_imu_t\<close> to 0, and the
  sample at 3 is then enqueued without a warning.
\<close>

theorem imu_order_across_restart_counterexample:
  "imu_buf (imu_callbacks no_rotation (init_state False False 0)
      [((0, 0, 0), INITIAL, imu_at 5 (0, 0, 0))]) = [imu_at 5 (0, 0, 0)] \<and>
   stamp (imu_at 3 (0, 0, 0)) \<le> stamp (imu_at 5 (0, 0, 0)) \<and>
   imu_buf (imu_callbacks no_rotation
      (restart_callback
         (imu_callbacks no_rotation (init_state False False 0)
            [((0, 0, 0), INITIAL, imu_at 5 (0, 0, 0))])
         True)
      [((0, 0, 0), INITIAL, imu_at 3 (0, 0, 0))]) = [imu_at 3 (0, 0, 0)] \<and>
   effects (imu_callbacks no_rotation
      (restart_callback
         (imu_callbacks no_rotation (init_state False False 0)
            [((0, 0, 0), INITIAL, imu_at 5 (0, 0, 0))])
         True)
      [((0, 0, 0), INITIAL, imu_at 3 (0, 0, 0))]) =
     [SetParameter, Notify, Warn ''restart the estimator!'', ClearState, SetParameter, Notify]"
  by (simp add: imu_callback_def predict_def restart_callback_def clearState_def
      setParameter_def Let_def pop_all_Nil imu_at_def init_state_def)


section \<open>Restart\<close>

lemma imu_after_restart:
  assumes "0 < stamp m"
  shows "\<not> init_imu s \<Longrightarrow>
           acc_0 (imu_callback deltaQ g flag (restart_callback s True) m) = linear_acceleration m \<and>
           gyr_0 (imu_callback deltaQ g flag (restart_callback s True) m) = angular_velocity m"
    and "init_imu s \<Longrightarrow>
           acc_0 (imu_callback deltaQ g flag (restart_callback s True) m) = acc_0 s \<and>
           tmp_P (imu_callback deltaQ g flag (restart_callback s True) m) = tmp_P s \<and>
           tmp_V (imu_callback deltaQ g flag (restart_callback s True) m) = tmp_V s \<and>
           \<not> init_imu (imu_callback deltaQ g flag (restart_callback s True) m)"
  using assms
  by (simp_all add: imu_callback_def predict_def restart_callback_def clearState_def
      setParameter_def Let_def pop_all_Nil)

text \<open>
  Claim C5, as amended. A restart message with \<^verbatim>\<open>data = true\<close> empties \<^verbatim>\<open>imu_buf\<close>
  and \<^verbatim>\<open>feature_buf\<close>, logs the warning, calls \<^verbatim>\<open>clearState\<close> and then
  \<^verbatim>\<open>setParameter\<close>, sets \<^verbatim>\<open>current_time\<close> to -1 and \<^verbatim>\<open>last_imu_t\<close> to 0, and
  changes nothing else: the GNSS queue, the ephemeris that the estimator holds, the
  clock calibration (\<^verbatim>\<open>time_diff_gnss_local\<close>, \<^verbatim>\<open>time_diff_valid\<close>, the pending pulse)
  and the whole state of \<^verbatim>\<open>predict\<close>, \<^verbatim>\<open>init_imu\<close> included, are as before. A
  message with \<^verbatim>\<open>data = false\<close> changes nothing. So the first IMU sample after a
  restart, when its stamp is positive, is integrated by \<^verbatim>\<open>predict\<close> (it becomes
  \<^verbatim>\<open>acc_0\<close> and \<^verbatim>\<open>gyr_0\<close>) if \<^verbatim>\<open>predict\<close> had seen a sample before the restart, and
  only initialises \<^verbatim>\<open>predict\<close> (position and velocity stay) if it had seen none.
\<close>

theorem restart_callback_effect:
  "restart_callback s True =
     s\<lparr> feature_buf := [], imu_buf := [],
        effects := effects s @ [Warn ''restart the estimator!'', ClearState, SetParameter],
        current_time := - 1, last_imu_t := 0 \<rparr> \<and>
   gnss_meas_buf (restart_callback s True) = gnss_meas_buf s \<and>
   estimator_ephem (restart_callback s True) = estimator_ephem s \<and>
   estimator_ephem (restart_callback (gnss_ephem_callback s ephem) True) =
     estimator_ephem s @ [ephem] \<and>
   estimator_ephem (restart_callback (gnss_glo_ephem_callback s ephem) True) =
     estimator_ephem s @ [ephem] \<and>
   init_imu (restart_callback s True) = init_imu s \<and>
   latest_time (restart_callback s True) = latest_time s \<and>
   time_diff_gnss_local (restart_callback s True) = time_diff_gnss_local s \<and>
   time_diff_valid (restart_callback s True) = time_diff_valid s \<and>
   next_pulse_time (restart_callback s True) = next_pulse_time s \<and>
   next_pulse_time_valid (restart_callback s True) = next_pulse_time_valid s \<and>
   restart_callback s False = s \<and>
   (\<not> init_imu s \<and> 0 < stamp m \<longrightarrow>
      acc_0 (imu_callback deltaQ g flag (restart_callback s True) m) = linear_acceleration m \<and>
      gyr_0 (imu_callback deltaQ g flag (restart_callback s True) m) = angular_velocity m) \<and>
   (init_imu s \<and> 0 < stamp m \<longrightarrow>
      acc_0 (imu_callback deltaQ g flag (restart_callback s True) m) = acc_0 s \<and>
      tmp_P (imu_callback deltaQ g flag (restart_callback s True) m) = tmp_P s \<and>
      tmp_V (imu_callback deltaQ g flag (restart_callback s True) m) = tmp_V s \<and>
      \<not> init_imu (imu_callback deltaQ g flag (restart_callback s True) m))"
  using imu_after_restart [of m s deltaQ g flag]
  by (simp add: restart_callback_def clearState_def setParameter_def gnss_ephem_callback_def
      gnss_glo_ephem_callback_def inputEphem_def Let_def pop_all_Nil)

text \<open>
  The two rules for the first sample after a restart: at a state in which \<^verbatim>\<open>predict\<close>
  has seen a sample, and at the initial state.
\<close>

theorem restart_callback_effect_witness:
  "\<not> init_imu ((init_state False False 0)\<lparr>init_imu := False, latest_time := 1\<rparr>) \<and>
   0 < stamp (imu_at 2 (0, 0, 10)) \<and>
   acc_0 (imu_callback no_rotation (0, 0, 0) INITIAL
      (restart_callback ((init_state False False 0)\<lparr>init_imu := False, latest_time := 1\<rparr>) True)
      (imu_at 2 (0, 0, 10))) = (0, 0, 10) \<and>
   init_imu (init_state False False 0) \<and>
   acc_0 (imu_callback no_rotation (0, 0, 0) INITIAL
      (restart_callback (init_state False False 0) True)
      (imu_at 2 (0, 0, 10))) = (0, 0, 0)"
proof -
  have h1: "\<not> init_imu ((init_state False False 0)\<lparr>init_imu := False, latest_time := 1\<rparr>) \<and>
      0 < stamp (imu_at 2 (0, 0, 10))"
    by (simp add: imu_at_def)
  have h2: "init_imu (init_state False False 0) \<and> 0 < stamp (imu_at 2 (0, 0, 10))"
    by (simp add: imu_at_def init_state_def)
  note t = restart_callback_effect
  from t [THEN conjunct2, THEN conjunct2, THEN conjunct2, THEN conjunct2, THEN conjunct2,
          THEN conjunct2, THEN conjunct2, THEN conjunct2, THEN conjunct2, THEN conjunct2,
          THEN conjunct2, THEN conjunct2, THEN conjunct1, rule_format, OF h1]
       t [THEN conjunct2, THEN conjunct2, THEN conjunct2, THEN conjunct2, THEN conjunct2,
          THEN conjunct2, THEN conjunct2, THEN conjunct2, THEN conjunct2, THEN conjunct2,
          THEN conjunct2, THEN conjunct2, THEN conjunct2, rule_format, OF h2]
       h1 h2
  show ?thesis by (simp add: imu_at_def init_state_def)
qed

text \<open>
  Claim C5 as stated has the restart mark the mechanization as not initialised, which
  in the code is \<^verbatim>\<open>init_imu = 1\<close>. After a first IMU sample \<^verbatim>\<open>init_imu\<close> is 0, and the
  restart leaves it 0.
\<close>

theorem restart_keeps_init_imu_counterexample:
  "init_imu ((init_state False False 0)\<lparr>init_imu := False, latest_time := 1\<rparr>) = False \<and>
   init_imu (restart_callback ((init_state False False 0)\<lparr>init_imu := False, latest_time := 1\<rparr>) True)
     = False"
  by (simp add: restart_callback_def clearState_def setParameter_def Let_def pop_all_Nil
      init_state_def)


section \<open>Clock calibration\<close>

text \<open>
  Claim C6, as amended. When a pulse is pending, a trigger at local time \<open>t\<close> sets
  \<^verbatim>\<open>time_diff_gnss_local\<close> to the pulse time minus \<open>t\<close>, passes it to the estimator
  and sets \<^verbatim>\<open>time_diff_valid\<close>; the pulse stays pending, so a second trigger at
  \<open>t'\<close> before the next pulse sets the difference to the pulse time minus \<open>t'\<close>.
  When no pulse is pending the trigger changes nothing. After a pulse in GPS time the
  next trigger calibrates against that pulse.
\<close>

theorem local_trigger_info_callback_effect:
  "(next_pulse_time_valid s \<longrightarrow>
      local_trigger_info_callback s t =
        s\<lparr> time_diff_gnss_local := next_pulse_time s - t,
           effects := effects s @
             (if time_diff_valid s
              then [InputGNSSTimeDiff (next_pulse_time s - t)]
              else [InputGNSSTimeDiff (next_pulse_time s - t),
                    CoutCalibrated (next_pulse_time s - t)]),
           time_diff_valid := True \<rparr> \<and>
      next_pulse_time_valid (local_trigger_info_callback s t) \<and>
      next_pulse_time (local_trigger_info_callback s t) = next_pulse_time s \<and>
      time_diff_gnss_local (local_trigger_info_callback (local_trigger_info_callback s t) t') =
        next_pulse_time s - t') \<and>
   (\<not> next_pulse_time_valid s \<longrightarrow> local_trigger_info_callback s t = s) \<and>
   (\<not> utc_based tp \<and> time_sys tp = SYS_GPS \<longrightarrow>
      time_diff_gnss_local (local_trigger_info_callback (gnss_tp_info_callback lib s tp) t) =
        gpst2time lib (week tp) (tow tp) - t \<and>
      time_diff_valid (local_trigger_info_callback (gnss_tp_info_callback lib s tp) t))"
  by (simp add: local_trigger_info_callback_def gnss_tp_info_callback_def Let_def)

text \<open>
  The rule with a pulse pending at 100 and a trigger at 10, with no pulse pending, and
  after the pulse of week 2000, second 100 in GPS time.
\<close>

theorem local_trigger_info_callback_effect_witness:
  "next_pulse_time_valid ((init_state True True 0)\<lparr>next_pulse_time := 100, next_pulse_time_valid := True\<rparr>) \<and>
   time_diff_gnss_local
     (local_trigger_info_callback
        ((init_state True True 0)\<lparr>next_pulse_time := 100, next_pulse_time_valid := True\<rparr>) 10) = 90 \<and>
   \<not> next_pulse_time_valid (init_state True True 0) \<and>
   local_trigger_info_callback (init_state True True 0) 10 = init_state True True 0 \<and>
   \<not> utc_based \<lparr>week = 2000, tow = 100, time_sys = SYS_GPS, utc_based = False\<rparr> \<and>
   time_sys \<lparr>week = 2000, tow = 100, time_sys = SYS_GPS, utc_based = False\<rparr> = SYS_GPS \<and>
   time_diff_valid
     (local_trigger_info_callback
        (gnss_tp_info_callback
           \<lparr>gpst2time = (\<lambda>w t. real w * 604800 + t), utc2gpst = (\<lambda>t. t),
             gst2time = (\<lambda>w t. real w * 604800 + t), bdt2time = (\<lambda>w t. real w * 604800 + t)\<rparr>
           (init_state True True 0)
           \<lparr>week = 2000, tow = 100, time_sys = SYS_GPS, utc_based = False\<rparr>) 10)"
proof -
  have h1: "next_pulse_time_valid
      ((init_state True True 0)\<lparr>next_pulse_time := 100, next_pulse_time_valid := True\<rparr>)"
    by simp
  have h2: "\<not> next_pulse_time_valid (init_state True True 0)"
    by (simp add: init_state_def)
  have h3: "\<not> utc_based \<lparr>week = 2000, tow = 100, time_sys = SYS_GPS, utc_based = False\<rparr> \<and>
      time_sys \<lparr>week = 2000, tow = 100, time_sys = SYS_GPS, utc_based = False\<rparr> = SYS_GPS"
    by simp
  note t = local_trigger_info_callback_effect
  from t [THEN conjunct1, rule_format, OF h1, of 10]
       t [THEN conjunct2, THEN conjunct1, rule_format, OF h2, of 10]
       t [THEN conjunct2, THEN conjunct2, rule_format, OF h3]
       h1 h2 h3
  show ?thesis by simp
qed

text \<open>
  Claim C6 as stated has the first trigger consume the pulse, so that a second trigger
  leaves the difference alone. With a pulse pending at 100, the trigger at 10 sets the
  difference to 90, the pulse is still pending, and the trigger at 11 sets it to 89.
\<close>

theorem second_trigger_counterexample:
  "time_diff_gnss_local
     (local_trigger_info_callback
        ((init_state True True 0)\<lparr>next_pulse_time := 100, next_pulse_time_valid := True\<rparr>) 10) = 90 \<and>
   time_diff_gnss_local
     (local_trigger_info_callback
        (local_trigger_info_callback
           ((init_state True True 0)\<lparr>next_pulse_time := 100, next_pulse_time_valid := True\<rparr>) 10)
        11) = 89 \<and>
   next_pulse_time_valid
     (local_trigger_info_callback
        ((init_state True True 0)\<lparr>next_pulse_time := 100, next_pulse_time_valid := True\<rparr>) 10)"
  by (simp add: local_trigger_info_callback_def Let_def)


section \<open>The feature callback\<close>




















section \<open>The GNSS measurement callback\<close>

lemma dropped_epoch_run:
  "gnss_meas_buf (gnss_meas_callback (pulse_pending 1000) (epoch_at 1000.1)) = []"
  "skip_parameter
     (local_trigger_info_callback (gnss_meas_callback (pulse_pending 1000) (epoch_at 1000.1)) 0)
     = - 1"
  "gnss_meas_buf
     (foldl feature_callback
        (local_trigger_info_callback (gnss_meas_callback (pulse_pending 1000) (epoch_at 1000.1)) 0)
        [feature_at 0.05, feature_at 0.1]) = []"
  "latest_gnss_time
     (foldl feature_callback
        (local_trigger_info_callback (gnss_meas_callback (pulse_pending 1000) (epoch_at 1000.1)) 0)
        [feature_at 0.05, feature_at 0.1]) = 1000.1"
  "skip_parameter
     (foldl feature_callback
        (local_trigger_info_callback (gnss_meas_callback (pulse_pending 1000) (epoch_at 1000.1)) 0)
        [feature_at 0.05, feature_at 0.1]) = 1"
  "feature_buf
     (foldl feature_callback
        (local_trigger_info_callback (gnss_meas_callback (pulse_pending 1000) (epoch_at 1000.1)) 0)
        [feature_at 0.05, feature_at 0.1]) = [feature_at 0.1]"
  "gnss_meas_buf
     (foldl feature_callback
        (local_trigger_info_callback (gnss_meas_callback (pulse_pending 1000) (epoch_at 1000.05)) 0)
        [feature_at 0.05, feature_at 0.1]) = []"
  "skip_parameter
     (foldl feature_callback
        (local_trigger_info_callback (gnss_meas_callback (pulse_pending 1000) (epoch_at 1000.05)) 0)
        [feature_at 0.05, feature_at 0.1]) = 0"
  "feature_buf
     (foldl feature_callback
        (local_trigger_info_callback (gnss_meas_callback (pulse_pending 1000) (epoch_at 1000.05)) 0)
        [feature_at 0.05, feature_at 0.1]) = []"
  by (simp_all add: feature_callback_def gnss_meas_callback_def local_trigger_info_callback_def
      pulse_pending_def init_state_def Let_def feature_at_def epoch_at_def epoch_ts_def)

text \<open>
  Claim C10. Every GNSS epoch sets \<^verbatim>\<open>latest_gnss_time\<close> to its time, also when the
  offset is not valid and the epoch is dropped (the queue and the log stay as they
  were); with a valid offset the epoch is appended to the queue. The parity decision
  of the feature callback can therefore rest on an epoch that was never enqueued: with a
  pulse pending at 1000, an epoch at 1000.1 is dropped, the trigger at local time 0
  validates the offset, and the frames at 0.05 and 0.1 decide \<^verbatim>\<open>skip_parameter = 1\<close>
  with the GNSS queue empty all along; had the dropped epoch been at 1000.05, the
  decision would be 0.
\<close>

theorem gnss_meas_callback_latest_time:
  "latest_gnss_time (gnss_meas_callback s e) = epoch_ts e \<and>
   (\<not> time_diff_valid s \<longrightarrow>
      gnss_meas_buf (gnss_meas_callback s e) = gnss_meas_buf s \<and>
      effects (gnss_meas_callback s e) = effects s) \<and>
   (time_diff_valid s \<longrightarrow> gnss_meas_buf (gnss_meas_callback s e) = gnss_meas_buf s @ [e]) \<and>
   gnss_meas_buf (gnss_meas_callback (pulse_pending 1000) (epoch_at 1000.1)) = [] \<and>
   skip_parameter
     (local_trigger_info_callback (gnss_meas_callback (pulse_pending 1000) (epoch_at 1000.1)) 0)
     = - 1 \<and>
   gnss_meas_buf
     (foldl feature_callback
        (local_trigger_info_callback (gnss_meas_callback (pulse_pending 1000) (epoch_at 1000.1)) 0)
        [feature_at 0.05, feature_at 0.1]) = [] \<and>
   latest_gnss_time
     (foldl feature_callback
        (local_trigger_info_callback (gnss_meas_callback (pulse_pending 1000) (epoch_at 1000.1)) 0)
        [feature_at 0.05, feature_at 0.1]) = 1000.1 \<and>
   skip_parameter
     (foldl feature_callback
        (local_trigger_info_callback (gnss_meas_callback (pulse_pending 1000) (epoch_at 1000.1)) 0)
        [feature_at 0.05, feature_at 0.1]) = 1 \<and>
   feature_buf
     (foldl feature_callback
        (local_trigger_info_callback (gnss_meas_callback (pulse_pending 1000) (epoch_at 1000.1)) 0)
        [feature_at 0.05, feature_at 0.1]) = [feature_at 0.1] \<and>
   gnss_meas_buf
     (foldl feature_callback
        (local_trigger_info_callback (gnss_meas_callback (pulse_pending 1000) (epoch_at 1000.05)) 0)
        [feature_at 0.05, feature_at 0.1]) = [] \<and>
   skip_parameter
     (foldl feature_callback
        (local_trigger_info_callback (gnss_meas_callback (pulse_pending 1000) (epoch_at 1000.05)) 0)
        [feature_at 0.05, feature_at 0.1]) = 0 \<and>
   feature_buf
     (foldl feature_callback
        (local_trigger_info_callback (gnss_meas_callback (pulse_pending 1000) (epoch_at 1000.05)) 0)
        [feature_at 0.05, feature_at 0.1]) = []"
proof -
  have "latest_gnss_time (gnss_meas_callback s e) = epoch_ts e"
    by (simp add: gnss_meas_callback_def Let_def)
  moreover have "\<not> time_diff_valid s \<longrightarrow>
      gnss_meas_buf (gnss_meas_callback s e) = gnss_meas_buf s \<and>
      effects (gnss_meas_callback s e) = effects s"
    by (simp add: gnss_meas_callback_def Let_def)
  moreover have "time_diff_valid s \<longrightarrow>
      gnss_meas_buf (gnss_meas_callback s e) = gnss_meas_buf s @ [e]"
    by (simp add: gnss_meas_callback_def Let_def)
  ultimately show ?thesis
    using dropped_epoch_run by blast
qed

text \<open>
  The two rules for the queue at the initial state with online synchronisation (offset
  not valid) and with the static offset (valid).
\<close>

theorem gnss_meas_callback_latest_time_witness:
  "\<not> time_diff_valid (init_state True True 0) \<and>
   latest_gnss_time (gnss_meas_callback (init_state True True 0) (epoch_at 1000.1)) = 1000.1 \<and>
   gnss_meas_buf (gnss_meas_callback (init_state True True 0) (epoch_at 1000.1)) = [] \<and>
   time_diff_valid (init_state True False 0) \<and>
   gnss_meas_buf (gnss_meas_callback (init_state True False 0) (epoch_at 1000.1)) =
     [epoch_at 1000.1]"
proof -
  have h1: "\<not> time_diff_valid (init_state True True 0)" by (simp add: init_state_def)
  have h2: "time_diff_valid (init_state True False 0)" by (simp add: init_state_def)
  note t = gnss_meas_callback_latest_time
  from t [of "init_state True True 0" "epoch_at 1000.1", THEN conjunct1]
       t [of "init_state True True 0" "epoch_at 1000.1", THEN conjunct2, THEN conjunct1,
          rule_format, OF h1]
       t [of "init_state True False 0" "epoch_at 1000.1", THEN conjunct2, THEN conjunct2,
          THEN conjunct1, rule_format, OF h2]
       h1 h2
  show ?thesis by (simp add: init_state_def epoch_at_def epoch_ts_def)
qed


section \<open>The IMU part of the main loop\<close>

lemma straddle_sync:
  "getMeasurements False 0
     ((init_state False False 0)
        \<lparr> imu_buf := [imu_at 0 (0, 0, 10), imu_at 0.01 (0, 0, 10), imu_at 0.02 (0, 0, 20)],
          feature_buf := [feature_at 0.015] \<rparr>)
     fresh_outs =
   Inr (True,
     (init_state False False 0)
        \<lparr> imu_buf := [imu_at 0.02 (0, 0, 20)], feature_buf := [] \<rparr>,
     \<lparr> imu_msg = [imu_at 0 (0, 0, 10), imu_at 0.01 (0, 0, 10), imu_at 0.02 (0, 0, 20)],
       img_msg = Some (feature_at 0.015),
       gnss_msg = [] \<rparr>)"
  by (simp add: getMeasurements_def take_img_and_imu_def init_state_def
      fresh_outs_def imu_at_def feature_at_def)

lemma straddle_dispatch:
  "process_imu 0
     ((init_state False False 0)
        \<lparr> imu_buf := [imu_at 0.02 (0, 0, 20)], feature_buf := [] \<rparr>)
     \<lparr> imu_msg = [imu_at 0 (0, 0, 10), imu_at 0.01 (0, 0, 10), imu_at 0.02 (0, 0, 20)],
       img_msg = Some (feature_at 0.015),
       gnss_msg = [] \<rparr> =
   Inr ((init_state False False 0)
        \<lparr> imu_buf := [imu_at 0.02 (0, 0, 20)], feature_buf := [],
          current_time := 0.015,
          effects := [SetParameter,
                      ProcessIMU 0 (0, 0, 10) (0, 0, 0),
                      ProcessIMU 0.01 (0, 0, 10) (0, 0, 0),
                      ProcessIMU 0.005 (0, 0, 15) (0, 0, 0)] \<rparr>)"
  by (simp add: process_imu_def process_imu_data_def Let_def init_state_def
      imu_at_def feature_at_def)

lemma process_imu_data_straddle:
  assumes "img_t < stamp m" "current_time s \<le> img_t"
  shows "process_imu_data img_t (s, d, r) m =
     Inr (s\<lparr> current_time := img_t,
             effects := effects s @
               [ProcessIMU (img_t - current_time s)
                  (vadd (smul ((stamp m - img_t) / ((img_t - current_time s) + (stamp m - img_t))) d)
                        (smul ((img_t - current_time s) / ((img_t - current_time s) + (stamp m - img_t)))
                           (linear_acceleration m)))
                  (vadd (smul ((stamp m - img_t) / ((img_t - current_time s) + (stamp m - img_t))) r)
                        (smul ((img_t - current_time s) / ((img_t - current_time s) + (stamp m - img_t)))
                           (angular_velocity m)))] \<rparr>,
          vadd (smul ((stamp m - img_t) / ((img_t - current_time s) + (stamp m - img_t))) d)
               (smul ((img_t - current_time s) / ((img_t - current_time s) + (stamp m - img_t)))
                  (linear_acceleration m)),
          vadd (smul ((stamp m - img_t) / ((img_t - current_time s) + (stamp m - img_t))) r)
               (smul ((img_t - current_time s) / ((img_t - current_time s) + (stamp m - img_t)))
                  (angular_velocity m)))"
  using assms by (simp add: process_imu_data_def Let_def)



text \<open>
  Claim C3, as amended. For a sample newer than \<open>img.t + td\<close> the loop calls
  \<^verbatim>\<open>processIMU\<close> with \<open>dt1 = img.t + td - current_time\<close> and with the acceleration and
  angular velocity interpolated with the weights \<open>w1 = dt2 / (dt1 + dt2)\<close> on the
  previous values and \<open>w2 = dt1 / (dt1 + dt2)\<close> on the sample, where
  \<open>dt2 = t - (img.t + td)\<close>, and sets \<^verbatim>\<open>current_time\<close> to \<open>img.t + td\<close>. On the first
  bundle after startup, with IMU samples at 0.00, 0.01 and 0.02 with accelerations
  (0,0,10), (0,0,10), (0,0,20), a feature at 0.015 and \<open>td = 0\<close>, the bundle holds the
  three samples and the loop makes three \<^verbatim>\<open>processIMU\<close> calls: \<open>dt = 0\<close> for the
  first sample, \<open>dt = 0.01\<close> for the second, and \<open>dt = 0.005\<close> with acceleration
  (0,0,15) for the third, which stays in the IMU queue.
\<close>

theorem process_imu_straddle:
  "(img_t < stamp m \<and> current_time s \<le> img_t \<longrightarrow>
      (let dt1 = img_t - current_time s;
           dt2 = stamp m - img_t;
           w1 = dt2 / (dt1 + dt2);
           w2 = dt1 / (dt1 + dt2);
           a' = vadd (smul w1 d) (smul w2 (linear_acceleration m));
           r' = vadd (smul w1 r) (smul w2 (angular_velocity m))
       in process_imu_data img_t (s, d, r) m =
            Inr (s\<lparr>current_time := img_t, effects := effects s @ [ProcessIMU dt1 a' r']\<rparr>,
                 a', r'))) \<and>
   (\<exists>s1 out s2.
      getMeasurements False 0
        ((init_state False False 0)
           \<lparr> imu_buf := [imu_at 0 (0, 0, 10), imu_at 0.01 (0, 0, 10), imu_at 0.02 (0, 0, 20)],
             feature_buf := [feature_at 0.015] \<rparr>)
        fresh_outs = Inr (True, s1, out) \<and>
      imu_msg out = [imu_at 0 (0, 0, 10), imu_at 0.01 (0, 0, 10), imu_at 0.02 (0, 0, 20)] \<and>
      process_imu 0 s1 out = Inr s2 \<and>
      processIMU_calls (effects s2) =
        [(0, (0, 0, 10), (0, 0, 0)), (0.01, (0, 0, 10), (0, 0, 0)), (0.005, (0, 0, 15), (0, 0, 0))] \<and>
      current_time s2 = 0.015 \<and>
      imu_buf s2 = [imu_at 0.02 (0, 0, 20)])"
proof (intro conjI impI)
  assume "img_t < stamp m \<and> current_time s \<le> img_t"
  then show "let dt1 = img_t - current_time s;
           dt2 = stamp m - img_t;
           w1 = dt2 / (dt1 + dt2);
           w2 = dt1 / (dt1 + dt2);
           a' = vadd (smul w1 d) (smul w2 (linear_acceleration m));
           r' = vadd (smul w1 r) (smul w2 (angular_velocity m))
       in process_imu_data img_t (s, d, r) m =
            Inr (s\<lparr>current_time := img_t, effects := effects s @ [ProcessIMU dt1 a' r']\<rparr>,
                 a', r')"
    unfolding Let_def using process_imu_data_straddle [of img_t m s d r] by blast
next
  show "\<exists>s1 out s2.
      getMeasurements False 0
        ((init_state False False 0)
           \<lparr> imu_buf := [imu_at 0 (0, 0, 10), imu_at 0.01 (0, 0, 10), imu_at 0.02 (0, 0, 20)],
             feature_buf := [feature_at 0.015] \<rparr>)
        fresh_outs = Inr (True, s1, out) \<and>
      imu_msg out = [imu_at 0 (0, 0, 10), imu_at 0.01 (0, 0, 10), imu_at 0.02 (0, 0, 20)] \<and>
      process_imu 0 s1 out = Inr s2 \<and>
      processIMU_calls (effects s2) =
        [(0, (0, 0, 10), (0, 0, 0)), (0.01, (0, 0, 10), (0, 0, 0)), (0.005, (0, 0, 15), (0, 0, 0))] \<and>
      current_time s2 = 0.015 \<and>
      imu_buf s2 = [imu_at 0.02 (0, 0, 20)]"
    by (intro exI conjI, rule straddle_sync, simp, rule straddle_dispatch) simp_all
qed

text \<open>
  The interpolation rule at the third sample of the scenario.
\<close>

theorem process_imu_straddle_witness:
  "0.015 < stamp (imu_at 0.02 (0, 0, 20)) \<and>
   current_time ((init_state False False 0)\<lparr>current_time := 0.01\<rparr>) \<le> 0.015 \<and>
   process_imu_data 0.015
     ((init_state False False 0)\<lparr>current_time := 0.01\<rparr>, (0, 0, 10), (0, 0, 0))
     (imu_at 0.02 (0, 0, 20)) =
   Inr ((init_state False False 0)
          \<lparr>current_time := 0.015,
           effects := [SetParameter, ProcessIMU 0.005 (0, 0, 15) (0, 0, 0)]\<rparr>,
        (0, 0, 15), (0, 0, 0))"
proof -
  have h: "0.015 < stamp (imu_at 0.02 (0, 0, 20)) \<and>
      current_time ((init_state False False 0)\<lparr>current_time := 0.01\<rparr>) \<le> 0.015"
    by (simp add: imu_at_def)
  from process_imu_straddle [THEN conjunct1, rule_format, OF h, of "(0, 0, 10)" "(0, 0, 0)"] h
  show ?thesis
    by (simp add: Let_def imu_at_def init_state_def)
qed

text \<open>
  Claim C3 as stated counts two \<^verbatim>\<open>processIMU\<close> calls. The bundle of the scenario
  holds three samples, and the loop calls \<^verbatim>\<open>processIMU\<close> once for each.
\<close>

theorem straddle_three_calls_counterexample:
  "getMeasurements False 0
     ((init_state False False 0)
        \<lparr> imu_buf := [imu_at 0 (0, 0, 10), imu_at 0.01 (0, 0, 10), imu_at 0.02 (0, 0, 20)],
          feature_buf := [feature_at 0.015] \<rparr>)
     fresh_outs =
   Inr (True,
     (init_state False False 0)
        \<lparr> imu_buf := [imu_at 0.02 (0, 0, 20)], feature_buf := [] \<rparr>,
     \<lparr> imu_msg = [imu_at 0 (0, 0, 10), imu_at 0.01 (0, 0, 10), imu_at 0.02 (0, 0, 20)],
       img_msg = Some (feature_at 0.015),
       gnss_msg = [] \<rparr>) \<and>
   process_imu 0
     ((init_state False False 0)
        \<lparr> imu_buf := [imu_at 0.02 (0, 0, 20)], feature_buf := [] \<rparr>)
     \<lparr> imu_msg = [imu_at 0 (0, 0, 10), imu_at 0.01 (0, 0, 10), imu_at 0.02 (0, 0, 20)],
       img_msg = Some (feature_at 0.015),
       gnss_msg = [] \<rparr> =
   Inr ((init_state False False 0)
        \<lparr> imu_buf := [imu_at 0.02 (0, 0, 20)], feature_buf := [],
          current_time := 0.015,
          effects := [SetParameter,
                      ProcessIMU 0 (0, 0, 10) (0, 0, 0),
                      ProcessIMU 0.01 (0, 0, 10) (0, 0, 0),
                      ProcessIMU 0.005 (0, 0, 15) (0, 0, 0)] \<rparr>) \<and>
   length (processIMU_calls
     [SetParameter,
      ProcessIMU 0 (0, 0, 10) (0, 0, 0),
      ProcessIMU 0.01 (0, 0, 10) (0, 0, 0),
      ProcessIMU 0.005 (0, 0, 15) (0, 0, 0)]) = 3"
  using straddle_sync straddle_dispatch by simp

end
